theory Spec2Isabelle
  imports Complex_Main
begin

section \<open>The interaction-data (KPI) recorder of the login dialog\<close>

text \<open>
  A shallow embedding of \<^verbatim>\<open>resources/static/common/js/modules/interaction_data.js\<close>.
  The module is a singleton object whose methods mutate \<^verbatim>\<open>self\<close>; here every method
  takes the state and returns the new one. Two kinds of execution leave the normal
  result: a \<^verbatim>\<open>TypeError\<close> raised by the JavaScript runtime, and time arithmetic that
  produces \<^verbatim>\<open>NaN\<close>. Times are integers (epoch milliseconds) in this development, so
  an execution whose arithmetic would give \<^verbatim>\<open>NaN\<close> stops with \<open>NaNTime\<close>; the source
  does not raise there, it goes on with \<^verbatim>\<open>NaN\<close> offsets.
\<close>

datatype fault = TypeError | NaNTime

subsection \<open>Event tuples and KPI records\<close>

text \<open>
  An event tuple is the array \<^verbatim>\<open>[name, offset, ...]\<close>. Index 0 and index 1 always hold
  the reporting name and the offset; \<open>rest\<close> holds the cells from index 2 on, where
  \<open>Undef\<close> is a cell that was never written (it reads as \<^verbatim>\<open>undefined\<close>).
\<close>

datatype cell = Undef | Num int

datatype tuple = Tuple (tname: string) (offset: int) (rest: "cell list")

definition tupleLength :: "tuple \<Rightarrow> nat" where
  "tupleLength t = 2 + length (rest t)"

text \<open>Reading and writing a JavaScript array by index: a write past the end extends it.\<close>

definition getCell :: "cell list \<Rightarrow> nat \<Rightarrow> cell" where
  "getCell xs i = (if i < length xs then xs ! i else Undef)"

definition setCell :: "cell list \<Rightarrow> nat \<Rightarrow> cell \<Rightarrow> cell list" where
  "setCell xs i v =
     (if i < length xs then xs[i := v] else xs @ replicate (i - length xs) Undef @ [v])"

text \<open>Both are used at indices from 2 on, which live in \<open>rest\<close>.\<close>

definition tupleGet :: "tuple \<Rightarrow> nat \<Rightarrow> cell" where
  "tupleGet t i = getCell (rest t) (i - 2)"

definition tupleSet :: "tuple \<Rightarrow> nat \<Rightarrow> cell \<Rightarrow> tuple" where
  "tupleSet t i v = Tuple (tname t) (offset t) (setCell (rest t) (i - 2) v)"

definition REPEAT_COUNT_INDEX :: nat where
  "REPEAT_COUNT_INDEX = 3"

text \<open>
  A KPI record. A key that is absent (or \<^verbatim>\<open>null\<close>) is \<open>None\<close>; \<open>other\<close> keeps the keys
  that this module never names.
\<close>

record kpis =
  event_stream :: "tuple list option"
  sample_rate :: "rat option"
  timestamp :: "int option"
  local_timestamp :: "string option"
  lang :: "string option"
  screen_size :: "(int \<times> int) option"
  new_account :: "bool option"
  other :: "(string \<times> cell) list"

definition emptyKPIs :: kpis where
  "emptyKPIs = \<lparr>event_stream = None, sample_rate = None, timestamp = None,
     local_timestamp = None, lang = None, screen_size = None, new_account = None,
     other = []\<rparr>"

text \<open>
  One key of the object that a \<^verbatim>\<open>kpi_data\<close> message carries, with its value; \<open>None\<close> is
  the value \<^verbatim>\<open>null\<close>. The object is the list of its keys in enumeration order.
\<close>

datatype kpiKey =
    EventStreamKey "tuple list option"
  | SampleRateKey "rat option"
  | TimestampKey "int option"
  | LocalTimestampKey "string option"
  | LangKey "string option"
  | ScreenSizeKey "(int \<times> int) option"
  | NewAccountKey "bool option"
  | OtherKey string cell

subsection \<open>Event payloads\<close>

text \<open>
  \<^verbatim>\<open>data.network.url\<close> is a string in every well-formed report; \<open>UrlOther\<close> stands for
  any other truthy value (a number, an object), which has no \<^verbatim>\<open>split\<close> method.
  A missing property is \<open>None\<close>.
\<close>

datatype urlval = UrlStr string | UrlOther

record network =
  net_type :: "string option"
  net_url :: "urlval option"
  net_status :: "int option"

text \<open>
  \<^verbatim>\<open>data.action\<close> of an error screen: \<open>errorKey\<close> is what
  \<^verbatim>\<open>_.keyOf(errors, data.action)\<close> returns (the table \<^verbatim>\<open>bid.Errors\<close> is a collaborator),
  \<open>title\<close> is \<^verbatim>\<open>data.action.title\<close>.
\<close>

record action =
  errorKey :: "string option"
  title :: "string option"

record fields =
  name :: "string option"
  network :: "network option"
  action :: "action option"
  eventTime :: "int option"
  duration :: "int option"

text \<open>
  A payload is an object with the properties above, or a bare time (the \<^verbatim>\<open>start_time\<close>
  message carries the new start time itself, in epoch milliseconds), or the object of
  KPI keys that the \<^verbatim>\<open>kpi_data\<close> message carries.
\<close>

datatype payload = Time int | Obj fields | KpiData "kpiKey list"

definition emptyObj :: fields where
  "emptyObj = \<lparr>name = None, network = None, action = None, eventTime = None, duration = None\<rparr>"

text \<open>\<^verbatim>\<open>data = data || {}\<close>: an absent payload and the number 0 are falsy.\<close>

fun orEmpty :: "payload option \<Rightarrow> payload" where
  "orEmpty None = Obj emptyObj"
| "orEmpty (Some (Time t)) = (if t = 0 then Obj emptyObj else Time t)"
| "orEmpty (Some (Obj f)) = Obj f"
| "orEmpty (Some (KpiData k)) = KpiData k"

text \<open>Property reads; a number has none of these properties.\<close>

fun props :: "payload \<Rightarrow> fields" where
  "props (Obj f) = f"
| "props (Time t) = emptyObj"
| "props (KpiData k) = emptyObj"

text \<open>JavaScript truthiness of an optional string and of an optional number.\<close>

fun truthyStr :: "string option \<Rightarrow> bool" where
  "truthyStr None = False"
| "truthyStr (Some s) = (s \<noteq> [])"

fun truthyNum :: "int option \<Rightarrow> bool" where
  "truthyNum None = False"
| "truthyNum (Some n) = (n \<noteq> 0)"

fun truthyUrl :: "urlval option \<Rightarrow> bool" where
  "truthyUrl None = False"
| "truthyUrl (Some (UrlStr s)) = (s \<noteq> [])"
| "truthyUrl (Some UrlOther) = True"

subsection \<open>Name translator\<close>

text \<open>\<^verbatim>\<open>url.split('?')[0]\<close>: the part of the string before the first question mark.\<close>

definition beforeQuery :: "string \<Rightarrow> string" where
  "beforeQuery u = takeWhile (\<lambda>c. c \<noteq> CHR ''?'') u"

definition removeGetData :: "string \<Rightarrow> payload \<Rightarrow> fault + string option" where
  "removeGetData msg data =
     (case network (props data) of
        None \<Rightarrow> Inr (Some ''xhr.malformed_report'')
      | Some n \<Rightarrow>
          if msg \<noteq> [] \<and> truthyStr (net_type n) \<and> truthyUrl (net_url n) then
            (case net_url n of
               Some (UrlStr u) \<Rightarrow> Inr (Some (msg @ ''.'' @ the (net_type n) @ beforeQuery u))
             | _ \<Rightarrow> Inl TypeError)
          else Inr (Some ''xhr.malformed_report''))"

text \<open>Decimal form of a number, as \<^verbatim>\<open>Array.prototype.join\<close> prints an HTTP status.\<close>

fun digits :: "nat \<Rightarrow> string" where
  "digits n = (if n < 10 then [char_of (48 + n)]
               else digits (n div 10) @ [char_of (48 + n mod 10)])"

declare digits.simps [simp del]

fun joinDot :: "string list \<Rightarrow> string" where
  "joinDot [] = []"
| "joinDot [p] = p"
| "joinDot (p # q # ps) = p @ ''.'' @ joinDot (q # ps)"

definition orElse :: "string option \<Rightarrow> string option \<Rightarrow> string option" where
  "orElse a b = (if truthyStr a then a else b)"

definition parseErrorScreen :: "string \<Rightarrow> payload \<Rightarrow> fault + string option" where
  "parseErrorScreen msg data =
     (let parts1 = (case action (props data) of
                      None \<Rightarrow> []
                    | Some a \<Rightarrow>
                        [the (orElse (errorKey a) (orElse (title a) (Some ''unknown'')))]);
          parts2 = (case network (props data) of
                      None \<Rightarrow> parts1
                    | Some n \<Rightarrow>
                        (case net_status n of
                           None \<Rightarrow> parts1
                         | Some st \<Rightarrow> if st > 399 then parts1 @ [digits (nat st)] else parts1));
          parts3 = (if parts2 = [] then [''unknown''] else parts2)
      in Inr (Some (''screen.error.'' @ joinDot parts3)))"

definition serviceName :: "string \<Rightarrow> payload \<Rightarrow> fault + string option" where
  "serviceName msg data =
     Inr (Some (''screen.'' @ (case name (props data) of None \<Rightarrow> ''undefined'' | Some n \<Rightarrow> n)))"

text \<open>
  What a property read of the translation table can give: \<^verbatim>\<open>null\<close>, a string, a
  function of the message and its payload, or a value of another type (\<open>KOther\<close>, an
  object). A function may return \<^verbatim>\<open>undefined\<close> or another falsy value (\<open>None\<close>).
\<close>

datatype kpiInfo =
    KNull
  | KString string
  | KFunction "string \<Rightarrow> payload \<Rightarrow> fault + string option"
  | KOther

text \<open>
  A table gives the result of the property read \<^verbatim>\<open>table[msg]\<close>; \<open>None\<close> is
  \<^verbatim>\<open>undefined\<close>.
\<close>

type_synonym nameTable = "string \<Rightarrow> kpiInfo option"

text \<open>
  The table is an object literal, so a name it does not define is looked up in
  \<^verbatim>\<open>Object.prototype\<close>. \<^verbatim>\<open>getKPIName\<close> calls the function it finds as a plain function
  in strict mode, so an inherited method runs with \<^verbatim>\<open>this\<close> undefined:
  \<^verbatim>\<open>Object(msg, data)\<close> boxes the message name into a String object of the same
  characters (a truthy name, here the string itself); \<^verbatim>\<open>toString\<close> returns the tag of
  \<^verbatim>\<open>undefined\<close>; \<^verbatim>\<open>isPrototypeOf\<close> returns \<^verbatim>\<open>false\<close> for an argument that is not an
  object; the methods that convert \<^verbatim>\<open>this\<close> to an object raise a \<^verbatim>\<open>TypeError\<close>.
  \<^verbatim>\<open>__proto__\<close> reads as the prototype object itself.
\<close>

definition boxedName :: "string \<Rightarrow> payload \<Rightarrow> fault + string option" where
  "boxedName msg data = Inr (Some msg)"

definition undefinedTag :: "string \<Rightarrow> payload \<Rightarrow> fault + string option" where
  "undefinedTag msg data = Inr (Some ''[object Undefined]'')"

definition notAnObject :: "string \<Rightarrow> payload \<Rightarrow> fault + string option" where
  "notAnObject msg data = Inr None"

definition needsThis :: "string \<Rightarrow> payload \<Rightarrow> fault + string option" where
  "needsThis msg data = Inl TypeError"

definition inheritedProperties :: "(string \<times> kpiInfo) list" where
  "inheritedProperties =
     [(''constructor'', KFunction boxedName),
      (''toString'', KFunction undefinedTag),
      (''toLocaleString'', KFunction needsThis),
      (''valueOf'', KFunction needsThis),
      (''hasOwnProperty'', KFunction needsThis),
      (''isPrototypeOf'', KFunction notAnObject),
      (''propertyIsEnumerable'', KFunction needsThis),
      (''__proto__'', KOther),
      (''__defineGetter__'', KFunction needsThis),
      (''__defineSetter__'', KFunction needsThis),
      (''__lookupGetter__'', KFunction needsThis),
      (''__lookupSetter__'', KFunction needsThis)]"

text \<open>The entries the object literal defines itself.\<close>

definition tableEntries :: "(string \<times> kpiInfo) list" where
  "tableEntries =
     [(''service'', KFunction serviceName),
      (''cancel_state'', KString ''screen.cancel''),
      (''primary_user_authenticating'', KString ''window.redirect_to_primary''),
      (''dom_loading'', KString ''window.dom_loading''),
      (''window_unload'', KString ''window.unload''),
      (''channel_established'', KString ''window.channel_established''),
      (''user_can_interact'', KString ''user.can_interact''),
      (''generate_assertion'', KNull),
      (''assertion_generated'', KNull),
      (''user_staged'', KString ''user.user_staged''),
      (''user_confirmed'', KString ''user.user_confirmed''),
      (''email_staged'', KString ''user.email_staged''),
      (''email_confirmed'', KString ''user.email_confirmed''),
      (''reset_password_staged'', KString ''user.reset_password_staged''),
      (''reset_password_confirmed'', KString ''user.reset_password_confirmed''),
      (''reverify_email_staged'', KString ''user.reverify_email_staged''),
      (''reverify_email_confirmed'', KString ''user.reverify_email_confirmed''),
      (''notme'', KString ''user.logout''),
      (''enter_password'', KString ''authenticate.enter_password''),
      (''password_submit'', KString ''authenticate.password_submitted''),
      (''authentication_success'', KString ''authenticate.password_success''),
      (''authentication_fail'', KString ''authenticate.password_fail''),
      (''xhr_complete'', KFunction removeGetData),
      (''error_screen'', KFunction parseErrorScreen)]"

definition MediatorToKPINameTable :: nameTable where
  "MediatorToKPINameTable msg =
     (case map_of tableEntries msg of
        Some kpiInfo \<Rightarrow> Some kpiInfo
      | None \<Rightarrow> map_of inheritedProperties msg)"

text \<open>
  \<^verbatim>\<open>getKPIName\<close>: the three tests of the source in their order; when none applies the
  function falls off its end and returns \<^verbatim>\<open>undefined\<close>.
\<close>

definition getKPIName :: "nameTable \<Rightarrow> string \<Rightarrow> payload \<Rightarrow> fault + string option" where
  "getKPIName tbl msg data =
     (case tbl msg of
        Some KNull \<Rightarrow> Inr (Some msg)
      | Some (KString s) \<Rightarrow> Inr (Some s)
      | Some (KFunction f) \<Rightarrow> f msg data
      | Some KOther \<Rightarrow> Inr None
      | None \<Rightarrow> Inr None)"

subsection \<open>The module, its collaborators and its environment\<close>

text \<open>
  What one call reads from the browser: the value \<^verbatim>\<open>Math.random()\<close> returns, the
  \<^verbatim>\<open>lang\<close> attribute of the document, \<^verbatim>\<open>window.screen\<close>, the clock (\<^verbatim>\<open>new Date()\<close>),
  and the two conversions of \<^verbatim>\<open>Date\<close> (\<^verbatim>\<open>toString\<close>, and \<^verbatim>\<open>Date.parse\<close>, which gives
  \<^verbatim>\<open>NaN\<close>, here \<open>None\<close>, for a string it cannot read).
\<close>

record browser =
  mathRandom :: rat
  htmlLang :: "string option"
  screen :: "(int \<times> int) option"
  now :: int
  dateToString :: "int \<Rightarrow> string"
  dateParse :: "string option \<Rightarrow> int option"

record sessionContext =
  data_sample_rate :: "rat option"
  server_time :: int

text \<open>
  The callbacks the module has handed out and that have not run yet: the one given to
  \<^verbatim>\<open>model.publishCurrent\<close>, and the one given to \<^verbatim>\<open>user.withContext\<close>, which has
  captured the publish status.
\<close>

datatype callback = AwaitPublish | AwaitContext bool

text \<open>The calls made to collaborators, in the order they are made.\<close>

datatype call =
    ModelPublishCurrent
  | WithContext
  | BeginSampling
  | ModelPush kpis
  | Publish string

text \<open>
  The fields of \<^verbatim>\<open>self\<close>; then whether the module is subscribed to the mediator, the
  current record of the durable store, the callback that is pending, and the calls made
  so far. \<open>startTime\<close> is \<^verbatim>\<open>undefined\<close> before \<^verbatim>\<open>start\<close> assigns it and is not read
  before that.
\<close>

record state =
  mediatorToKPINameTable :: nameTable
  samplingEnabled :: "bool option"
  samplesBeingStored :: bool
  startTime :: int
  initialEventStream :: "tuple list option"
  initialKPIs :: "kpis option"
  subscribed :: bool
  current :: "kpis option"
  pending :: "callback option"
  trace :: "call list"

text \<open>
  Modelled from the spec: the durable store \<^verbatim>\<open>bid.Models.InteractionData\<close> is not among
  the sources. The spec gives it one current record: \<^verbatim>\<open>getCurrent\<close> reads it,
  \<^verbatim>\<open>setCurrent\<close> replaces it, \<^verbatim>\<open>push\<close> seeds a new durable record, which is then the
  current one.
\<close>

definition modelGetCurrent :: "state \<Rightarrow> kpis option" where
  "modelGetCurrent s = current s"

definition modelSetCurrent :: "kpis \<Rightarrow> state \<Rightarrow> state" where
  "modelSetCurrent d s = s\<lparr>current := Some d\<rparr>"

definition modelPush :: "kpis \<Rightarrow> state \<Rightarrow> state" where
  "modelPush d s = s\<lparr>current := Some d, trace := trace s @ [ModelPush d]\<rparr>"

text \<open>
  Modelled from the spec: \<^verbatim>\<open>model.publishCurrent\<close> hands the current record to the network
  for upload and, regardless of the upload's outcome, clears the durable slot, then calls
  its callback. This is the state of the store when the callback runs.
\<close>

definition modelPublishCurrentDone :: "state \<Rightarrow> state" where
  "modelPublishCurrentDone s = s\<lparr>current := None\<rparr>"

subsection \<open>Session persistence bridge\<close>

definition getCurrentKPIs :: "state \<Rightarrow> kpis option" where
  "getCurrentKPIs s =
     (if samplingEnabled s = Some False then None
      else if samplesBeingStored s then modelGetCurrent s
      else initialKPIs s)"

definition setCurrentKPIs :: "kpis \<Rightarrow> state \<Rightarrow> state" where
  "setCurrentKPIs k s =
     (if samplesBeingStored s then modelSetCurrent k s
      else s\<lparr>initialKPIs := Some k\<rparr>)"

text \<open>\<^verbatim>\<open>model.getCurrent() || {}\<close>\<close>

definition currentOrEmpty :: "state \<Rightarrow> kpis" where
  "currentOrEmpty s = (case modelGetCurrent s of None \<Rightarrow> emptyKPIs | Some d \<Rightarrow> d)"

definition getCurrentEventStream :: "state \<Rightarrow> tuple list option" where
  "getCurrentEventStream s =
     (if samplingEnabled s = Some False then None
      else if samplesBeingStored s then
        (case event_stream (currentOrEmpty s) of None \<Rightarrow> Some [] | Some es \<Rightarrow> Some es)
      else initialEventStream s)"

definition setCurrentEventStream :: "tuple list \<Rightarrow> state \<Rightarrow> state" where
  "setCurrentEventStream es s =
     (if samplesBeingStored s then
        modelSetCurrent ((currentOrEmpty s)\<lparr>event_stream := Some es\<rparr>) s
      else s\<lparr>initialEventStream := Some es\<rparr>)"

subsection \<open>Event stream recorder\<close>

text \<open>\<^verbatim>\<open>event[1] += delta\<close>\<close>

definition shiftOffset :: "int \<Rightarrow> tuple \<Rightarrow> tuple" where
  "shiftOffset delta t = Tuple (tname t) (offset t + delta) (rest t)"

text \<open>
  The loop of \<^verbatim>\<open>updateStartTime\<close> visits the tuples in order and stops at the first falsy
  element; a tuple is an array, which is never falsy, so it visits them all.
\<close>

definition updateStartTime :: "int \<Rightarrow> state \<Rightarrow> state" where
  "updateStartTime newStartTime s =
     (let s1 = (case getCurrentEventStream s of
                  None \<Rightarrow> s
                | Some eventStream \<Rightarrow>
                    if eventStream \<noteq> [] then
                      (let delta = startTime s - newStartTime
                       in setCurrentEventStream (map (shiftOffset delta) eventStream) s)
                    else s)
      in s1\<lparr>startTime := newStartTime\<rparr>)"

text \<open>The test \<^verbatim>\<open>/^xhr_complete/\<close>.\<close>

definition isXhrComplete :: "string \<Rightarrow> bool" where
  "isXhrComplete eventName = (take 12 eventName = ''xhr_complete'')"

text \<open>\<^verbatim>\<open>lastEvent[REPEAT_COUNT_INDEX] || 1\<close>\<close>

definition repeatCountOr1 :: "tuple \<Rightarrow> int" where
  "repeatCountOr1 t =
     (case tupleGet t REPEAT_COUNT_INDEX of Undef \<Rightarrow> 1 | Num n \<Rightarrow> if n = 0 then 1 else n)"

definition bumpRepeatCount :: "tuple \<Rightarrow> tuple" where
  "bumpRepeatCount lastEvent =
     tupleSet lastEvent REPEAT_COUNT_INDEX (Num (repeatCountOr1 lastEvent + 1))"

text \<open>Returns the updated last tuple when it collapsed the event, \<^verbatim>\<open>undefined\<close> otherwise.\<close>

definition preventDuplicateXhrEvents :: "string \<Rightarrow> state \<Rightarrow> tuple option \<times> state" where
  "preventDuplicateXhrEvents eventName s =
     (case getCurrentEventStream s of
        None \<Rightarrow> (None, s)
      | Some eventStream \<Rightarrow>
          if isXhrComplete eventName \<and> eventStream \<noteq> [] then
            (let lastEvent = last eventStream in
             if tname lastEvent = eventName then
               (let lastEvent' = bumpRepeatCount lastEvent
                in (Some lastEvent',
                    setCurrentEventStream (butlast eventStream @ [lastEvent']) s))
             else (None, s))
          else (None, s))"

text \<open>\<^verbatim>\<open>data.eventTime || new Date()\<close>\<close>

definition eventTimeOr :: "int \<Rightarrow> payload \<Rightarrow> int" where
  "eventTimeOr clock data =
     (if truthyNum (eventTime (props data)) then the (eventTime (props data)) else clock)"

definition newEventData :: "string \<Rightarrow> int \<Rightarrow> payload \<Rightarrow> state \<Rightarrow> tuple" where
  "newEventData eventName clock data s =
     Tuple eventName (eventTimeOr clock data - startTime s)
       (if truthyNum (duration (props data)) then [Num (the (duration (props data)))] else [])"

text \<open>
  \<^verbatim>\<open>addEvent\<close> returns the new tuple, or \<^verbatim>\<open>undefined\<close>. \<open>clock\<close> is what \<^verbatim>\<open>new Date()\<close>
  gives during the call. A \<^verbatim>\<open>start_time\<close> message whose payload is not a time makes the
  start time \<^verbatim>\<open>NaN\<close>.
\<close>

definition addEvent :: "int \<Rightarrow> string \<Rightarrow> payload option \<Rightarrow> state \<Rightarrow> fault + (tuple option \<times> state)" where
  "addEvent clock msg data0 s =
     (let data = orEmpty data0 in
      case (if msg = ''start_time'' then
              (case data of Time t \<Rightarrow> Inr (updateStartTime t s) | _ \<Rightarrow> Inl NaNTime)
            else Inr s) of
        Inl e \<Rightarrow> Inl e
      | Inr s1 \<Rightarrow>
          if samplingEnabled s1 = Some False then Inr (None, s1)
          else
            (case getKPIName (mediatorToKPINameTable s1) msg data of
               Inl e \<Rightarrow> Inl e
             | Inr None \<Rightarrow> Inr (None, s1)
             | Inr (Some eventName) \<Rightarrow>
                 if eventName = [] then Inr (None, s1)
                 else
                   (case preventDuplicateXhrEvents eventName s1 of
                      (Some lastEvent, s2) \<Rightarrow> Inr (None, s2)
                    | (None, s2) \<Rightarrow>
                        (let eventData = newEventData eventName clock data s2 in
                         case getCurrentEventStream s2 of
                           None \<Rightarrow> Inr (Some eventData, s2)
                         | Some eventStream \<Rightarrow>
                             Inr (Some eventData,
                                  setCurrentEventStream (eventStream @ [eventData]) s2)))))"

subsection \<open>KPI data\<close>

text \<open>
  \<^verbatim>\<open>_.extend(currentData, kpiData)\<close> assigns every key of \<open>kpiData\<close>, in order, to the
  key of the same name, whatever the value.
\<close>

fun assignKey :: "kpis \<Rightarrow> kpiKey \<Rightarrow> kpis" where
  "assignKey k (EventStreamKey v) = k\<lparr>event_stream := v\<rparr>"
| "assignKey k (SampleRateKey v) = k\<lparr>sample_rate := v\<rparr>"
| "assignKey k (TimestampKey v) = k\<lparr>timestamp := v\<rparr>"
| "assignKey k (LocalTimestampKey v) = k\<lparr>local_timestamp := v\<rparr>"
| "assignKey k (LangKey v) = k\<lparr>lang := v\<rparr>"
| "assignKey k (ScreenSizeKey v) = k\<lparr>screen_size := v\<rparr>"
| "assignKey k (NewAccountKey v) = k\<lparr>new_account := v\<rparr>"
| "assignKey k (OtherKey key v) =
     k\<lparr>other := (key, v) # filter (\<lambda>p. fst p \<noteq> key) (other k)\<rparr>"

definition extendKPIs :: "kpis \<Rightarrow> kpiKey list \<Rightarrow> kpis" where
  "extendKPIs currentData kpiData = foldl assignKey currentData kpiData"

definition addKPIData :: "kpiKey list \<Rightarrow> state \<Rightarrow> state" where
  "addKPIData kpiData s =
     (case getCurrentKPIs s of
        None \<Rightarrow> s
      | Some currentData \<Rightarrow> setCurrentKPIs (extendKPIs currentData kpiData) s)"

text \<open>
  The \<^verbatim>\<open>kpi_data\<close> message is published with an object of KPI keys; another payload
  brings none of them.
\<close>

fun onKPIData :: "payload option \<Rightarrow> state \<Rightarrow> state" where
  "onKPIData (Some (KpiData kpiData)) s = addKPIData kpiData s"
| "onKPIData _ s = addKPIData [] s"

subsection \<open>Sampling decision engine\<close>

definition TEN_MINS_IN_MS :: int where
  "TEN_MINS_IN_MS = 10 * 60 * 1000"

definition roundedServerTime :: "int \<Rightarrow> int" where
  "roundedServerTime serverTime = (serverTime div TEN_MINS_IN_MS) * TEN_MINS_IN_MS"

text \<open>\<^verbatim>\<open>dataSampleRate || 0\<close>\<close>

definition sampleRate :: "sessionContext \<Rightarrow> rat" where
  "sampleRate ctx = (case data_sample_rate ctx of None \<Rightarrow> 0 | Some r \<Rightarrow> if r = 0 then 0 else r)"

text \<open>\<^verbatim>\<open>dom.getAttr('html', 'lang') || null\<close>\<close>

definition langOrNull :: "browser \<Rightarrow> string option" where
  "langOrNull b = (if truthyStr (htmlLang b) then htmlLang b else None)"

text \<open>
  The record \<^verbatim>\<open>newKPIs\<close>: the buffered KPIs extended with the six keys of the literal,
  then \<^verbatim>\<open>screen_size\<close> when the window has a screen.
\<close>

definition newKPIs :: "sessionContext \<Rightarrow> browser \<Rightarrow> state \<Rightarrow> kpis \<Rightarrow> kpis" where
  "newKPIs ctx b s k =
     (let k1 = k\<lparr>event_stream := initialEventStream s,
                  sample_rate := Some (sampleRate ctx),
                  timestamp := Some (roundedServerTime (server_time ctx)),
                  local_timestamp := Some (dateToString b (startTime s)),
                  lang := langOrNull b,
                  new_account := Some False\<rparr>
      in case screen b of None \<Rightarrow> k1 | Some wh \<Rightarrow> k1\<lparr>screen_size := Some wh\<rparr>)"

text \<open>
  \<^verbatim>\<open>beginSampling\<close>. The draw is made only while \<^verbatim>\<open>samplingEnabled\<close> is undefined.
  \<^verbatim>\<open>_.extend\<close> assigns the keys onto its first argument, which raises a
  \<^verbatim>\<open>TypeError\<close> when that argument is \<^verbatim>\<open>null\<close>.
\<close>

definition beginSampling :: "sessionContext \<Rightarrow> browser \<Rightarrow> state \<Rightarrow> fault + state" where
  "beginSampling ctx b s =
     (let s1 = (if samplingEnabled s = None
                then s\<lparr>samplingEnabled := Some (mathRandom b \<le> sampleRate ctx)\<rparr>
                else s)
      in if samplingEnabled s1 \<noteq> Some True then Inr s1
         else
           (case initialKPIs s1 of
              None \<Rightarrow> Inl TypeError
            | Some k \<Rightarrow>
                Inr ((modelPush (newKPIs ctx b s1 k) s1)
                       \<lparr>initialEventStream := None, initialKPIs := None,
                        samplesBeingStored := True\<rparr>)))"

subsection \<open>Publishing the previous record, and starting\<close>

text \<open>
  \<^verbatim>\<open>publishCurrent\<close> calls \<^verbatim>\<open>model.publishCurrent\<close> with a callback and returns. The
  callback, once the store calls it with the upload's status, calls
  \<^verbatim>\<open>user.withContext\<close> with a second callback; that one, once called with the session
  context, runs \<^verbatim>\<open>beginSampling\<close> (its only call site) and publishes the outcome message.
  The caller's own \<^verbatim>\<open>done\<close> callback is absent in \<^verbatim>\<open>start\<close>.
\<close>

definition publishCurrent :: "state \<Rightarrow> state" where
  "publishCurrent s = s\<lparr>trace := trace s @ [ModelPublishCurrent], pending := Some AwaitPublish\<rparr>"

definition publishCallback :: "bool \<Rightarrow> state \<Rightarrow> state" where
  "publishCallback status s =
     s\<lparr>trace := trace s @ [WithContext], pending := Some (AwaitContext status)\<rparr>"

definition contextCallback :: "bool \<Rightarrow> sessionContext \<Rightarrow> browser \<Rightarrow> state \<Rightarrow> fault + state" where
  "contextCallback status ctx b s =
     (case beginSampling ctx b (s\<lparr>trace := trace s @ [BeginSampling]\<rparr>) of
        Inl e \<Rightarrow> Inl e
      | Inr s1 \<Rightarrow>
          Inr (s1\<lparr>trace := trace s1 @
                 [Publish (if status then ''interaction_data_send_complete''
                           else ''interaction_data_send_error'')]\<rparr>))"

record options =
  opt_samplingEnabled :: "bool option"
  opt_continuation :: bool

definition start :: "options \<Rightarrow> browser \<Rightarrow> state \<Rightarrow> fault + state" where
  "start opts b s =
     (let s0 = s\<lparr>mediatorToKPINameTable := MediatorToKPINameTable,
                  samplingEnabled := opt_samplingEnabled opts\<rparr>
      in if opt_continuation opts then
           (case modelGetCurrent s0 of
              Some lastSessionsKPIs \<Rightarrow>
                (case dateParse b (local_timestamp lastSessionsKPIs) of
                   None \<Rightarrow> Inl NaNTime
                 | Some t \<Rightarrow>
                     Inr (s0\<lparr>startTime := t, samplingEnabled := Some True,
                             samplesBeingStored := True, subscribed := True\<rparr>))
            | None \<Rightarrow> Inr (s0\<lparr>samplingEnabled := Some False\<rparr>))
         else
           Inr ((publishCurrent
                   (s0\<lparr>startTime := now b, initialEventStream := Some [],
                       initialKPIs := Some emptyKPIs, samplesBeingStored := False\<rparr>))
                  \<lparr>subscribed := True\<rparr>))"

text \<open>
  The module object of a freshly loaded page: nothing assigned yet, no subscription, no
  callback handed out; the durable store holds what the previous page left.
\<close>

definition newModule :: "kpis option \<Rightarrow> state" where
  "newModule stored =
     \<lparr>mediatorToKPINameTable = (\<lambda>msg. None), samplingEnabled = None,
      samplesBeingStored = False, startTime = 0, initialEventStream = None,
      initialKPIs = None, subscribed = False, current = stored, pending = None,
      trace = []\<rparr>"

subsection \<open>The session as a state machine\<close>

text \<open>
  After \<^verbatim>\<open>start\<close>, the module runs only when called back: by the mediator with a
  message (at clock reading \<open>clock\<close>), by the store when the upload has ended, by the
  session-context collaborator with the context. The store empties its slot before it
  calls back.
\<close>

datatype input =
    Message int string "payload option"
  | PublishDone bool
  | ContextReady sessionContext browser

fun step :: "input \<Rightarrow> state \<Rightarrow> fault + state" where
  "step (Message clock msg data) s =
     (if subscribed s then
        (case addEvent clock msg data s of
           Inl e \<Rightarrow> Inl e
         | Inr (r, s1) \<Rightarrow> Inr (if msg = ''kpi_data'' then onKPIData data s1 else s1))
      else Inr s)"
| "step (PublishDone status) s =
     (case pending s of
        Some AwaitPublish \<Rightarrow>
          Inr (publishCallback status ((modelPublishCurrentDone s)\<lparr>pending := None\<rparr>))
      | _ \<Rightarrow> Inr s)"
| "step (ContextReady ctx b) s =
     (case pending s of
        Some (AwaitContext status) \<Rightarrow> contextCallback status ctx b (s\<lparr>pending := None\<rparr>)
      | _ \<Rightarrow> Inr s)"

fun run :: "input list \<Rightarrow> state \<Rightarrow> fault + state" where
  "run [] s = Inr s"
| "run (i # inputs) s = (case step i s of Inl e \<Rightarrow> Inl e | Inr s1 \<Rightarrow> run inputs s1)"

subsection \<open>Page loads\<close>

text \<open>
  One page load: the module object is created afresh over what the durable store holds,
  \<^verbatim>\<open>start\<close> runs with the page's options, then the callbacks run. A run ends at the first
  fault.
\<close>

record page =
  page_options :: options
  page_browser :: browser
  page_inputs :: "input list"

fun browse :: "page list \<Rightarrow> state \<Rightarrow> fault + state" where
  "browse [] s = Inr s"
| "browse (p # ps) s =
     (case start (page_options p) (page_browser p) (newModule (current s)) of
        Inl e \<Rightarrow> Inl e
      | Inr s0 \<Rightarrow>
          (case run (page_inputs p) s0 of
             Inl e \<Rightarrow> Inl e
           | Inr s1 \<Rightarrow> browse ps s1))"

text \<open>
  Event producers publish KPI keys such as \<^verbatim>\<open>new_account\<close> with \<^verbatim>\<open>kpi_data\<close>. An input
  keeps the stream when it is not a \<^verbatim>\<open>kpi_data\<close> payload with an \<^verbatim>\<open>event_stream\<close> key,
  which would replace the recorded stream.
\<close>

fun streamKey :: "kpiKey \<Rightarrow> bool" where
  "streamKey (EventStreamKey v) = True"
| "streamKey _ = False"

fun keepsStream :: "input \<Rightarrow> bool" where
  "keepsStream (Message clock msg (Some (KpiData kpiData))) = (filter streamKey kpiData = [])"
| "keepsStream _ = True"

subsection \<open>Adjacent tuples of a stream\<close>

text \<open>
  Two adjacent tuples are a missed duplicate when they carry the same name, the name is
  one of a network completion, and the second has no repeat count.
\<close>

definition missedDuplicate :: "tuple \<Rightarrow> tuple \<Rightarrow> bool" where
  "missedDuplicate a b =
     (tname a = tname b \<and> isXhrComplete (tname b) \<and> tupleGet b REPEAT_COUNT_INDEX = Undef)"

fun noMissedDuplicate :: "tuple list \<Rightarrow> bool" where
  "noMissedDuplicate [] = True"
| "noMissedDuplicate [a] = True"
| "noMissedDuplicate (a # b # r) = (\<not> missedDuplicate a b \<and> noMissedDuplicate (b # r))"

text \<open>The recorder keeps more: no network-completion name follows itself.\<close>

fun distinctCompletions :: "string list \<Rightarrow> bool" where
  "distinctCompletions [] = True"
| "distinctCompletions [a] = True"
| "distinctCompletions (a # b # r) =
     (\<not> (isXhrComplete b \<and> a = b) \<and> distinctCompletions (b # r))"

definition streamOK :: "tuple list option \<Rightarrow> bool" where
  "streamOK x = (case x of None \<Rightarrow> True | Some es \<Rightarrow> distinctCompletions (map tname es))"

definition storedStream :: "state \<Rightarrow> tuple list option" where
  "storedStream s = (case current s of None \<Rightarrow> None | Some d \<Rightarrow> event_stream d)"

definition streamsOK :: "state \<Rightarrow> bool" where
  "streamsOK s = (streamOK (initialEventStream s) \<and> streamOK (storedStream s))"

subsection \<open>The order of collaborator calls in a session\<close>

text \<open>
  The shapes a session's trace can have: the publish of the previous record first, then
  the request for the session context, then the sampling decision, which may push a
  record, then the outcome message.
\<close>

fun decided :: "call list \<Rightarrow> bool" where
  "decided [Publish m] = True"
| "decided [ModelPush d, Publish m] = True"
| "decided _ = False"

fun afterContext :: "call list \<Rightarrow> bool" where
  "afterContext [] = True"
| "afterContext (c # r) = (c = BeginSampling \<and> decided r)"

fun afterPublish :: "call list \<Rightarrow> bool" where
  "afterPublish [] = True"
| "afterPublish (c # r) = (c = WithContext \<and> afterContext r)"

fun sequenced :: "call list \<Rightarrow> bool" where
  "sequenced [] = False"
| "sequenced (c # r) = (c = ModelPublishCurrent \<and> afterPublish r)"

text \<open>
  Where a non-continuation session stands, by the callback it waits for: before the
  publish has ended the store still holds the previous record \<open>stored\<close>; before the
  context has arrived the store is empty; in both the session buffers in memory.
\<close>

definition sessionPhase :: "kpis option \<Rightarrow> state \<Rightarrow> bool" where
  "sessionPhase stored s =
     (case pending s of
        Some AwaitPublish \<Rightarrow>
          trace s = [ModelPublishCurrent] \<and> \<not> samplesBeingStored s \<and> current s = stored
      | Some (AwaitContext status) \<Rightarrow>
          trace s = [ModelPublishCurrent, WithContext] \<and> \<not> samplesBeingStored s \<and>
          current s = None
      | None \<Rightarrow>
          take 3 (trace s) = [ModelPublishCurrent, WithContext, BeginSampling] \<and>
          decided (drop 3 (trace s)))"

text \<open>What recording an event leaves alone.\<close>

definition controlKept :: "state \<Rightarrow> state \<Rightarrow> bool" where
  "controlKept s s' =
     (pending s' = pending s \<and> trace s' = trace s \<and> subscribed s' = subscribed s \<and>
      samplingEnabled s' = samplingEnabled s \<and>
      samplesBeingStored s' = samplesBeingStored s \<and>
      (samplesBeingStored s \<or> current s' = current s))"

subsection \<open>An example environment\<close>

text \<open>A browser whose values are fixed, for evaluating the definitions on concrete inputs.\<close>

definition exampleBrowser :: browser where
  "exampleBrowser =
     \<lparr>mathRandom = 1 / 2, htmlLang = Some ''en'', screen = Some (1024, 768),
      now = 1000, dateToString = (\<lambda>t. ''Thu Jan 01 1970 00:00:01 GMT+0000''),
      dateParse = (\<lambda>str. case str of None \<Rightarrow> None | Some x \<Rightarrow> Some 1000)\<rparr>"

text \<open>A session that has started, has buffered one event and has not decided yet.\<close>

definition exampleBuffering :: state where
  "exampleBuffering =
     (newModule None)\<lparr>mediatorToKPINameTable := MediatorToKPINameTable,
        startTime := 1000, initialEventStream := Some [Tuple ''window.dom_loading'' 5 []],
        initialKPIs := Some emptyKPIs, subscribed := True\<rparr>"

text \<open>A network-completion payload, and a page load that receives it twice.\<close>

definition exampleXhr :: "payload option" where
  "exampleXhr = Some (Obj (emptyObj\<lparr>network := Some \<lparr>net_type = Some ''GET'',
     net_url = Some (UrlStr ''/wsapi/session_context?a=1''), net_status = Some 200\<rparr>\<rparr>))"

definition examplePage :: page where
  "examplePage =
     \<lparr>page_options = \<lparr>opt_samplingEnabled = None, opt_continuation = False\<rparr>,
      page_browser = exampleBrowser,
      page_inputs =
        [Message 1001 ''xhr_complete'' exampleXhr,
         PublishDone True,
         ContextReady \<lparr>data_sample_rate = Some 1, server_time = 1000003\<rparr> exampleBrowser,
         Message 1002 ''xhr_complete'' exampleXhr,
         Message 1003 ''user_staged'' None]\<rparr>"

text \<open>A page load in which a \<^verbatim>\<open>kpi_data\<close> message carries an event stream.\<close>

definition exampleOverwrite :: page where
  "exampleOverwrite =
     \<lparr>page_options = \<lparr>opt_samplingEnabled = None, opt_continuation = False\<rparr>,
      page_browser = exampleBrowser,
      page_inputs =
        [PublishDone True,
         ContextReady \<lparr>data_sample_rate = Some 1, server_time = 1000003\<rparr> exampleBrowser,
         Message 1004 ''kpi_data''
           (Some (KpiData [EventStreamKey
              (Some [Tuple ''xhr_complete.GET/wsapi/session_context'' 1 [],
                     Tuple ''xhr_complete.GET/wsapi/session_context'' 2 []])]))]\<rparr>"

section \<open>Properties\<close>

subsection \<open>The active event stream\<close>

lemma setCurrentEventStream_fields [simp]:
  "samplingEnabled (setCurrentEventStream es s) = samplingEnabled s"
  "samplesBeingStored (setCurrentEventStream es s) = samplesBeingStored s"
  "startTime (setCurrentEventStream es s) = startTime s"
  "mediatorToKPINameTable (setCurrentEventStream es s) = mediatorToKPINameTable s"
  "subscribed (setCurrentEventStream es s) = subscribed s"
  "pending (setCurrentEventStream es s) = pending s"
  "trace (setCurrentEventStream es s) = trace s"
  "initialKPIs (setCurrentEventStream es s) = initialKPIs s"
  by (simp_all add: setCurrentEventStream_def modelSetCurrent_def)

lemma getCurrentEventStream_set [simp]:
  "samplingEnabled s \<noteq> Some False \<Longrightarrow>
   getCurrentEventStream (setCurrentEventStream es s) = Some es"
  by (simp add: getCurrentEventStream_def setCurrentEventStream_def modelSetCurrent_def
      currentOrEmpty_def modelGetCurrent_def)

lemma preventDuplicate_not_xhr:
  "\<not> isXhrComplete eventName \<Longrightarrow> preventDuplicateXhrEvents eventName s = (None, s)"
  by (simp add: preventDuplicateXhrEvents_def split: option.splits)

subsection \<open>Name translation of unmapped messages\<close>

lemma addEvent_no_entry:
  "mediatorToKPINameTable s msg = None \<Longrightarrow> msg \<noteq> ''start_time'' \<Longrightarrow>
   addEvent clock msg data0 s = Inr (None, s)"
  by (simp add: addEvent_def getKPIName_def Let_def)

lemma addEvent_null_entry:
  "mediatorToKPINameTable s msg = Some KNull \<Longrightarrow> msg \<noteq> [] \<Longrightarrow> msg \<noteq> ''start_time'' \<Longrightarrow>
   \<not> isXhrComplete msg \<Longrightarrow> samplingEnabled s \<noteq> Some False \<Longrightarrow>
   getCurrentEventStream s = Some es \<Longrightarrow>
   addEvent clock msg data0 s =
     Inr (Some (newEventData msg clock (orEmpty data0) s),
          setCurrentEventStream (es @ [newEventData msg clock (orEmpty data0) s]) s)"
  by (simp add: addEvent_def getKPIName_def Let_def preventDuplicate_not_xhr)

lemma table_None_iff:
  "(MediatorToKPINameTable msg = None) =
     (msg \<notin> set (map fst tableEntries) \<and> msg \<notin> set (map fst inheritedProperties))"
proof -
  have a: "(map_of tableEntries msg = None) = (msg \<notin> set (map fst tableEntries))"
    by (simp add: map_of_eq_None_iff)
  have b: "(map_of inheritedProperties msg = None) =
             (msg \<notin> set (map fst inheritedProperties))"
    by (simp add: map_of_eq_None_iff)
  show ?thesis
    unfolding a [symmetric] b [symmetric]
    by (cases "map_of tableEntries msg") (simp_all add: MediatorToKPINameTable_def)
qed

text \<open>
  A message name that the built-in table does not define and \<^verbatim>\<open>Object.prototype\<close> does
  not have translates to \<^verbatim>\<open>undefined\<close>, and \<^verbatim>\<open>addEvent\<close>, in a started session that
  records, returns without recording a tuple: the name is not passed through.
\<close>

theorem C1_unmapped_name_counterexample:
  "MediatorToKPINameTable ''unmapped_message'' = None \<and>
   getKPIName MediatorToKPINameTable ''unmapped_message'' (Obj emptyObj) = Inr None \<and>
   (case start \<lparr>opt_samplingEnabled = Some True, opt_continuation = False\<rparr>
           exampleBrowser (newModule None) of
      Inl e \<Rightarrow> False
    | Inr s \<Rightarrow> getCurrentEventStream s = Some [] \<and>
               addEvent 1005 ''unmapped_message'' None s = Inr (None, s))"
proof -
  have t: "MediatorToKPINameTable ''unmapped_message'' = None"
    by (simp add: table_None_iff tableEntries_def inheritedProperties_def)
  then have g: "getKPIName MediatorToKPINameTable ''unmapped_message'' (Obj emptyObj) = Inr None"
    by (simp add: getKPIName_def)
  let ?s = "(publishCurrent
               ((newModule None)\<lparr>mediatorToKPINameTable := MediatorToKPINameTable,
                  samplingEnabled := Some True, startTime := now exampleBrowser,
                  initialEventStream := Some [], initialKPIs := Some emptyKPIs,
                  samplesBeingStored := False\<rparr>))\<lparr>subscribed := True\<rparr>"
  have st: "start \<lparr>opt_samplingEnabled = Some True, opt_continuation = False\<rparr>
              exampleBrowser (newModule None) = Inr ?s"
    by (simp add: start_def Let_def)
  have tb: "mediatorToKPINameTable ?s = MediatorToKPINameTable"
    by (simp add: publishCurrent_def)
  have gs: "getCurrentEventStream ?s = Some []"
    by (simp add: getCurrentEventStream_def publishCurrent_def)
  have "addEvent 1005 ''unmapped_message'' None ?s = Inr (None, ?s)"
    by (rule addEvent_no_entry) (simp_all only: tb t, simp)
  with t g st gs show ?thesis by simp
qed

text \<open>
  C1, as the code has it. Pass-through is what the table value \<^verbatim>\<open>null\<close> asks for: a
  message whose entry is \<^verbatim>\<open>null\<close> translates to its own name, and \<^verbatim>\<open>addEvent\<close> records a
  tuple under that name. The read \<^verbatim>\<open>table[msg]\<close> of the built-in table gives
  \<^verbatim>\<open>undefined\<close> exactly for the names that are neither a key of the table nor a property
  of \<^verbatim>\<open>Object.prototype\<close>; such a name translates to \<^verbatim>\<open>undefined\<close>, and \<^verbatim>\<open>addEvent\<close>
  drops the event: it returns no tuple and leaves the state as it was.
\<close>

theorem C1_null_entry_passes_no_entry_drops:
  "(tbl msg = Some KNull \<longrightarrow> getKPIName tbl msg data = Inr (Some msg)) \<and>
   (tbl msg = None \<longrightarrow> getKPIName tbl msg data = Inr None) \<and>
   ((msg \<notin> set (map fst tableEntries) \<and> msg \<notin> set (map fst inheritedProperties)) =
      (MediatorToKPINameTable msg = None)) \<and>
   (mediatorToKPINameTable s = MediatorToKPINameTable \<and>
    msg \<notin> set (map fst tableEntries) \<and> msg \<notin> set (map fst inheritedProperties) \<and>
    msg \<noteq> ''start_time'' \<longrightarrow>
      addEvent clock msg data0 s = Inr (None, s)) \<and>
   (mediatorToKPINameTable s msg = Some KNull \<and> msg \<noteq> [] \<and> msg \<noteq> ''start_time'' \<and>
    \<not> isXhrComplete msg \<and> samplingEnabled s \<noteq> Some False \<and>
    getCurrentEventStream s = Some es \<longrightarrow>
      (\<exists>t s'. addEvent clock msg data0 s = Inr (Some t, s') \<and> tname t = msg \<and>
               getCurrentEventStream s' = Some (es @ [t])))"
proof (intro conjI impI)
  assume "tbl msg = Some KNull"
  then show "getKPIName tbl msg data = Inr (Some msg)" by (simp add: getKPIName_def)
next
  assume "tbl msg = None"
  then show "getKPIName tbl msg data = Inr None" by (simp add: getKPIName_def)
next
  show "(msg \<notin> set (map fst tableEntries) \<and> msg \<notin> set (map fst inheritedProperties)) =
      (MediatorToKPINameTable msg = None)"
    by (simp only: table_None_iff)
next
  assume h: "mediatorToKPINameTable s = MediatorToKPINameTable \<and>
    msg \<notin> set (map fst tableEntries) \<and> msg \<notin> set (map fst inheritedProperties) \<and>
    msg \<noteq> ''start_time''"
  then have "mediatorToKPINameTable s msg = None"
    using table_None_iff [of msg] by simp
  with h show "addEvent clock msg data0 s = Inr (None, s)" by (simp add: addEvent_no_entry)
next
  assume h: "mediatorToKPINameTable s msg = Some KNull \<and> msg \<noteq> [] \<and> msg \<noteq> ''start_time'' \<and>
    \<not> isXhrComplete msg \<and> samplingEnabled s \<noteq> Some False \<and>
    getCurrentEventStream s = Some es"
  then have "addEvent clock msg data0 s =
     Inr (Some (newEventData msg clock (orEmpty data0) s),
          setCurrentEventStream (es @ [newEventData msg clock (orEmpty data0) s]) s)"
    by (simp add: addEvent_null_entry)
  with h show "\<exists>t s'. addEvent clock msg data0 s = Inr (Some t, s') \<and> tname t = msg \<and>
               getCurrentEventStream s' = Some (es @ [t])"
    by (simp add: newEventData_def)
qed

theorem C1_null_entry_passes_no_entry_drops_witness:
  "getKPIName MediatorToKPINameTable ''generate_assertion'' (Obj emptyObj) =
     Inr (Some ''generate_assertion'') \<and>
   MediatorToKPINameTable ''unmapped_message'' = None \<and>
   getKPIName MediatorToKPINameTable ''unmapped_message'' (Obj emptyObj) = Inr None \<and>
   addEvent 1005 ''unmapped_message'' None exampleBuffering = Inr (None, exampleBuffering) \<and>
   (\<exists>t s'. addEvent 1005 ''generate_assertion'' None exampleBuffering = Inr (Some t, s') \<and>
      tname t = ''generate_assertion'' \<and>
      getCurrentEventStream s' = Some [Tuple ''window.dom_loading'' 5 [], t])"
proof -
  let ?es = "[Tuple ''window.dom_loading'' 5 []]"
  have tb: "mediatorToKPINameTable exampleBuffering = MediatorToKPINameTable"
    by (simp add: exampleBuffering_def)
  have a: "MediatorToKPINameTable ''generate_assertion'' = Some KNull"
    by (simp add: MediatorToKPINameTable_def tableEntries_def)
  have u: "''unmapped_message'' \<notin> set (map fst tableEntries) \<and>
           ''unmapped_message'' \<notin> set (map fst inheritedProperties)"
    by (simp add: tableEntries_def inheritedProperties_def)
  have st: "''unmapped_message'' \<noteq> ''start_time''" by simp
  have h: "mediatorToKPINameTable exampleBuffering ''generate_assertion'' = Some KNull \<and>
    ''generate_assertion'' \<noteq> [] \<and> ''generate_assertion'' \<noteq> ''start_time'' \<and>
    \<not> isXhrComplete ''generate_assertion'' \<and>
    samplingEnabled exampleBuffering \<noteq> Some False \<and>
    getCurrentEventStream exampleBuffering = Some ?es"
    unfolding tb a
    by (simp add: isXhrComplete_def exampleBuffering_def newModule_def
        getCurrentEventStream_def)
  note general = C1_null_entry_passes_no_entry_drops
    [of MediatorToKPINameTable "''generate_assertion''" "Obj emptyObj"
        exampleBuffering 1005 None "?es"]
  note dropped = C1_null_entry_passes_no_entry_drops
    [of MediatorToKPINameTable "''unmapped_message''" "Obj emptyObj"
        exampleBuffering 1005 None "?es"]
  from general a have 1: "getKPIName MediatorToKPINameTable ''generate_assertion''
      (Obj emptyObj) = Inr (Some ''generate_assertion'')" by blast
  from dropped u have 2: "MediatorToKPINameTable ''unmapped_message'' = None" by blast
  with dropped have 3: "getKPIName MediatorToKPINameTable ''unmapped_message''
      (Obj emptyObj) = Inr None" by blast
  from dropped tb u st
  have 4: "addEvent 1005 ''unmapped_message'' None exampleBuffering =
             Inr (None, exampleBuffering)" by blast
  from general h
  have "\<exists>t s'. addEvent 1005 ''generate_assertion'' None exampleBuffering = Inr (Some t, s') \<and>
      tname t = ''generate_assertion'' \<and>
      getCurrentEventStream s' = Some (?es @ [t])" by blast
  then have 5: "\<exists>t s'. addEvent 1005 ''generate_assertion'' None exampleBuffering =
        Inr (Some t, s') \<and> tname t = ''generate_assertion'' \<and>
      getCurrentEventStream s' = Some [Tuple ''window.dom_loading'' 5 [], t]" by simp
  from 1 2 3 4 5 show ?thesis by (intro conjI)
qed

text \<open>
  A name inherited from \<^verbatim>\<open>Object.prototype\<close> is found by the read and is not dropped as
  an unknown name is: \<^verbatim>\<open>toString\<close> is recorded under the tag of \<^verbatim>\<open>undefined\<close>, and
  \<^verbatim>\<open>hasOwnProperty\<close> raises.
\<close>

lemma inherited_names:
  "getKPIName MediatorToKPINameTable ''toString'' data = Inr (Some ''[object Undefined]'')"
  "getKPIName MediatorToKPINameTable ''hasOwnProperty'' data = Inl TypeError"
  "getKPIName MediatorToKPINameTable ''constructor'' data = Inr (Some ''constructor'')"
  by (simp_all add: getKPIName_def MediatorToKPINameTable_def tableEntries_def
      inheritedProperties_def undefinedTag_def needsThis_def boxedName_def)

subsection \<open>Names of network-completion events\<close>

lemma beforeQuery_no_mark: "CHR ''?'' \<notin> set (beforeQuery u)"
  by (auto simp: beforeQuery_def dest: set_takeWhileD)

lemma beforeQuery_strips:
  "u = beforeQuery u \<or> (\<exists>q. u = beforeQuery u @ CHR ''?'' # q)"
  unfolding beforeQuery_def by (induction u) auto

lemma table_xhr_complete:
  "MediatorToKPINameTable ''xhr_complete'' = Some (KFunction removeGetData)"
  by (simp add: MediatorToKPINameTable_def tableEntries_def)

text \<open>
  The built-in entry for \<^verbatim>\<open>xhr_complete\<close> is called with the message name, so the name
  it builds starts with \<^verbatim>\<open>xhr_complete.\<close> and not with \<^verbatim>\<open>xhr.\<close>.
\<close>

theorem C3_xhr_prefix_counterexample:
  "getKPIName MediatorToKPINameTable ''xhr_complete''
     (Obj (emptyObj\<lparr>network := Some \<lparr>net_type = Some ''GET'',
        net_url = Some (UrlStr ''/wsapi/session_context?a=1''), net_status = None\<rparr>\<rparr>))
   = Inr (Some ''xhr_complete.GET/wsapi/session_context'') \<and>
   ''xhr_complete.GET/wsapi/session_context'' \<noteq> ''xhr.GET/wsapi/session_context''"
  by (simp add: getKPIName_def table_xhr_complete removeGetData_def beforeQuery_def emptyObj_def)

text \<open>
  C3, as the code has it. For an \<^verbatim>\<open>xhr_complete\<close> message whose payload carries a network
  type (the HTTP method) and a url, both non-empty strings, the reporting name is the
  message name \<^verbatim>\<open>xhr_complete\<close>, a dot, the method, and the url up to its first question
  mark (the url itself when it has none). For a payload that lacks the network object,
  the method or the url, the translation returns the fixed name
  \<^verbatim>\<open>xhr.malformed_report\<close>; it does not raise.
\<close>

theorem C3_xhr_complete_name:
  "(network (props data) = Some n \<and> net_type n = Some ty \<and> ty \<noteq> [] \<and>
    net_url n = Some (UrlStr u) \<and> u \<noteq> [] \<longrightarrow>
      getKPIName MediatorToKPINameTable ''xhr_complete'' data =
        Inr (Some (''xhr_complete.'' @ ty @ beforeQuery u)) \<and>
      CHR ''?'' \<notin> set (beforeQuery u) \<and>
      (u = beforeQuery u \<or> (\<exists>q. u = beforeQuery u @ CHR ''?'' # q))) \<and>
   ((\<forall>m. network (props data) = Some m \<longrightarrow>
          \<not> truthyStr (net_type m) \<or> \<not> truthyUrl (net_url m)) \<longrightarrow>
      getKPIName MediatorToKPINameTable ''xhr_complete'' data =
        Inr (Some ''xhr.malformed_report''))"
proof (intro conjI impI)
  assume h: "network (props data) = Some n \<and> net_type n = Some ty \<and> ty \<noteq> [] \<and>
    net_url n = Some (UrlStr u) \<and> u \<noteq> []"
  then show "getKPIName MediatorToKPINameTable ''xhr_complete'' data =
        Inr (Some (''xhr_complete.'' @ ty @ beforeQuery u))"
    by (simp add: getKPIName_def table_xhr_complete removeGetData_def)
  show "CHR ''?'' \<notin> set (beforeQuery u)" by (rule beforeQuery_no_mark)
  show "u = beforeQuery u \<or> (\<exists>q. u = beforeQuery u @ CHR ''?'' # q)"
    by (rule beforeQuery_strips)
next
  assume "\<forall>m. network (props data) = Some m \<longrightarrow>
          \<not> truthyStr (net_type m) \<or> \<not> truthyUrl (net_url m)"
  then show "getKPIName MediatorToKPINameTable ''xhr_complete'' data =
        Inr (Some ''xhr.malformed_report'')"
    by (auto simp: getKPIName_def table_xhr_complete removeGetData_def split: option.splits)
qed

theorem C3_xhr_complete_name_witness:
  "getKPIName MediatorToKPINameTable ''xhr_complete''
     (Obj (emptyObj\<lparr>network := Some \<lparr>net_type = Some ''POST'',
        net_url = Some (UrlStr ''/wsapi/stage_user?x=1&y=2''), net_status = None\<rparr>\<rparr>))
   = Inr (Some (''xhr_complete.'' @ ''POST'' @ beforeQuery ''/wsapi/stage_user?x=1&y=2'')) \<and>
   getKPIName MediatorToKPINameTable ''xhr_complete''
     (Obj (emptyObj\<lparr>network := Some \<lparr>net_type = Some ''POST'',
        net_url = None, net_status = None\<rparr>\<rparr>))
   = Inr (Some ''xhr.malformed_report'')"
proof -
  let ?n = "\<lparr>net_type = Some ''POST'', net_url = Some (UrlStr ''/wsapi/stage_user?x=1&y=2''),
             net_status = None\<rparr>"
  let ?d = "Obj (emptyObj\<lparr>network := Some ?n\<rparr>)"
  let ?e = "Obj (emptyObj\<lparr>network := Some \<lparr>net_type = Some ''POST'',
        net_url = None, net_status = None\<rparr>\<rparr>)"
  have a: "network (props ?d) = Some ?n \<and> net_type ?n = Some ''POST'' \<and> ''POST'' \<noteq> [] \<and>
    net_url ?n = Some (UrlStr ''/wsapi/stage_user?x=1&y=2'') \<and> ''/wsapi/stage_user?x=1&y=2'' \<noteq> []"
    by simp
  have b: "\<forall>m. network (props ?e) = Some m \<longrightarrow>
          \<not> truthyStr (net_type m) \<or> \<not> truthyUrl (net_url m)"
    by auto
  from a C3_xhr_complete_name [of ?d ?n "''POST''" "''/wsapi/stage_user?x=1&y=2''"]
  have 1: "getKPIName MediatorToKPINameTable ''xhr_complete'' ?d =
        Inr (Some (''xhr_complete.'' @ ''POST'' @ beforeQuery ''/wsapi/stage_user?x=1&y=2''))"
    by blast
  from b C3_xhr_complete_name [of ?e]
  have 2: "getKPIName MediatorToKPINameTable ''xhr_complete'' ?e =
        Inr (Some ''xhr.malformed_report'')"
    by blast
  from 1 2 show ?thesis by blast
qed

subsection \<open>The sampling decision\<close>

lemma roundedServerTime_floor:
  "roundedServerTime T \<le> T \<and> T < roundedServerTime T + 600000 \<and>
   600000 dvd roundedServerTime T"
proof -
  have "T = (T div 600000) * 600000 + T mod 600000" by simp
  moreover have "0 \<le> T mod 600000" "T mod 600000 < 600000" by simp_all
  ultimately have "(T div 600000) * 600000 \<le> T \<and> T < (T div 600000) * 600000 + 600000"
    by linarith
  then show ?thesis by (simp add: roundedServerTime_def TEN_MINS_IN_MS_def)
qed

lemma sampleRate_Some [simp]: "data_sample_rate ctx = Some r \<Longrightarrow> sampleRate ctx = r"
  by (simp add: sampleRate_def)

lemma decision_at_the_boundaries:
  "samplingEnabled s = None \<Longrightarrow> 0 \<le> mathRandom b \<Longrightarrow> mathRandom b < 1 \<Longrightarrow>
   (data_sample_rate ctx = Some 1 \<longrightarrow>
      (\<forall>s'. beginSampling ctx b s = Inr s' \<longrightarrow> samplingEnabled s' = Some True)) \<and>
   (data_sample_rate ctx = Some 0 \<and> 0 < mathRandom b \<longrightarrow>
      beginSampling ctx b s = Inr (s\<lparr>samplingEnabled := Some False\<rparr>))"
  by (auto simp: beginSampling_def Let_def modelPush_def split: option.splits)

text \<open>
  C2. The decision is \<^verbatim>\<open>Math.random() <= sampleRate\<close>. With sample rate 1 every draw in
  [0,1) enables sampling, and with sample rate 0 every draw above 0 disables it
  (\<open>decision_at_the_boundaries\<close>). The draw 0, which \<^verbatim>\<open>Math.random\<close> may return, is not
  above sample rate 0: in a session started without a preset decision, sample rate 0 and
  draw 0 enable sampling, and a record with sample rate 0 is pushed into the durable
  store.
\<close>

theorem C2_rate_zero_draw_zero_enables:
  "(case start \<lparr>opt_samplingEnabled = None, opt_continuation = False\<rparr>
           exampleBrowser (newModule None) of
      Inl e \<Rightarrow> False
    | Inr s \<Rightarrow>
        samplingEnabled s = None \<and>
        (case beginSampling \<lparr>data_sample_rate = Some 0, server_time = 1000003\<rparr>
                (exampleBrowser\<lparr>mathRandom := 0\<rparr>) s of
           Inl e \<Rightarrow> False
         | Inr s' \<Rightarrow> samplingEnabled s' = Some True \<and> samplesBeingStored s' \<and>
                     (\<exists>d. current s' = Some d \<and> sample_rate d = Some 0)))"
  by (simp add: start_def newModule_def publishCurrent_def beginSampling_def Let_def
      modelPush_def newKPIs_def exampleBrowser_def sampleRate_def)

text \<open>
  C7. When the decision comes out enabled (no decision yet, draw at most the sample rate
  \<open>r\<close>) with server time \<open>T\<close>, on the buffered KPIs \<open>k\<close> and the buffered events \<open>es\<close>:
  \<^verbatim>\<open>beginSampling\<close> returns, the record it pushes into the durable store has the buffered
  events as its event stream, sample rate \<open>r\<close>, the timestamp \<open>T\<close> rounded down to the
  previous multiple of 600,000, the string form of the start time as local timestamp, and
  \<^verbatim>\<open>new_account\<close> false; the buffer is discarded and the session stores durably. At
  \<open>T = 1,000,003\<close> the timestamp is 600,000 (the evaluation below).
\<close>

theorem C7_enabled_record_is_pushed:
  assumes "samplingEnabled s = None"
    and "mathRandom b \<le> r"
    and "data_sample_rate ctx = Some r"
    and "server_time ctx = T"
    and "initialKPIs s = Some k"
    and "initialEventStream s = Some es"
  shows "\<exists>s' d. beginSampling ctx b s = Inr s' \<and>
           trace s' = trace s @ [ModelPush d] \<and> current s' = Some d \<and>
           event_stream d = Some es \<and>
           sample_rate d = Some r \<and>
           timestamp d = Some ((T div 600000) * 600000) \<and>
           (T div 600000) * 600000 \<le> T \<and> T < (T div 600000) * 600000 + 600000 \<and>
           local_timestamp d = Some (dateToString b (startTime s)) \<and>
           new_account d = Some False \<and>
           samplingEnabled s' = Some True \<and>
           initialEventStream s' = None \<and> initialKPIs s' = None \<and>
           samplesBeingStored s'"
proof -
  let ?s1 = "s\<lparr>samplingEnabled := Some True\<rparr>"
  let ?d = "newKPIs ctx b ?s1 k"
  let ?s' = "(modelPush ?d ?s1)\<lparr>initialEventStream := None, initialKPIs := None,
                        samplesBeingStored := True\<rparr>"
  have run: "beginSampling ctx b s = Inr ?s'"
    using assms by (simp add: beginSampling_def Let_def)
  have d: "event_stream ?d = Some es" "sample_rate ?d = Some r"
    "timestamp ?d = Some ((T div 600000) * 600000)"
    "local_timestamp ?d = Some (dateToString b (startTime s))"
    "new_account ?d = Some False"
    using assms
    by (simp_all add: newKPIs_def Let_def roundedServerTime_def TEN_MINS_IN_MS_def
        split: option.splits)
  have fl: "(T div 600000) * 600000 \<le> T \<and> T < (T div 600000) * 600000 + 600000"
    using roundedServerTime_floor [of T]
    by (simp add: roundedServerTime_def TEN_MINS_IN_MS_def)
  have s': "trace ?s' = trace s @ [ModelPush ?d]" "current ?s' = Some ?d"
    "samplingEnabled ?s' = Some True" "initialEventStream ?s' = None"
    "initialKPIs ?s' = None" "samplesBeingStored ?s'"
    by (simp_all add: modelPush_def)
  from run d fl s' show ?thesis by blast
qed


theorem C7_enabled_record_is_pushed_witness:
  "\<exists>s' d. beginSampling \<lparr>data_sample_rate = Some 1, server_time = 1000003\<rparr>
             exampleBrowser exampleBuffering = Inr s' \<and>
           trace s' = [ModelPush d] \<and> current s' = Some d \<and>
           event_stream d = Some [Tuple ''window.dom_loading'' 5 []] \<and>
           sample_rate d = Some 1 \<and>
           timestamp d = Some 600000 \<and>
           local_timestamp d = Some ''Thu Jan 01 1970 00:00:01 GMT+0000'' \<and>
           new_account d = Some False \<and>
           samplingEnabled s' = Some True \<and>
           initialEventStream s' = None \<and> initialKPIs s' = None \<and>
           samplesBeingStored s'"
proof -
  let ?ctx = "\<lparr>data_sample_rate = Some 1, server_time = 1000003\<rparr>"
  have h: "samplingEnabled exampleBuffering = None" "mathRandom exampleBrowser \<le> 1"
    "data_sample_rate ?ctx = Some 1" "server_time ?ctx = 1000003"
    "initialKPIs exampleBuffering = Some emptyKPIs"
    "initialEventStream exampleBuffering = Some [Tuple ''window.dom_loading'' 5 []]"
    by (simp_all add: exampleBuffering_def newModule_def exampleBrowser_def)
  have v: "trace exampleBuffering = []" "startTime exampleBuffering = 1000"
    "dateToString exampleBrowser 1000 = ''Thu Jan 01 1970 00:00:01 GMT+0000''"
    by (simp_all add: exampleBuffering_def newModule_def exampleBrowser_def)
  from C7_enabled_record_is_pushed [OF h] v show ?thesis by simp
qed

text \<open>
  A session whose \<^verbatim>\<open>samplingEnabled\<close> is already \<^verbatim>\<open>true\<close> (the \<^verbatim>\<open>samplingEnabled\<close> option of
  \<^verbatim>\<open>start\<close>) and that still buffers: \<^verbatim>\<open>beginSampling\<close> changes the state and pushes a
  durable record.
\<close>

theorem C4_preset_true_counterexample:
  "samplingEnabled exampleBuffering = None \<and>
   (case beginSampling \<lparr>data_sample_rate = Some 1, server_time = 1000003\<rparr> exampleBrowser
           (exampleBuffering\<lparr>samplingEnabled := Some True\<rparr>) of
      Inl e \<Rightarrow> False
    | Inr s' \<Rightarrow> s' \<noteq> exampleBuffering\<lparr>samplingEnabled := Some True\<rparr> \<and>
                current (exampleBuffering\<lparr>samplingEnabled := Some True\<rparr>) = None \<and>
                current s' \<noteq> None \<and> samplesBeingStored s' \<and>
                length (trace s') = 1)"
proof -
  let ?s = "exampleBuffering\<lparr>samplingEnabled := Some True\<rparr>"
  let ?ctx = "\<lparr>data_sample_rate = Some 1, server_time = 1000003\<rparr>"
  let ?s' = "(modelPush (newKPIs ?ctx exampleBrowser ?s emptyKPIs) ?s)
               \<lparr>initialEventStream := None, initialKPIs := None, samplesBeingStored := True\<rparr>"
  have run: "beginSampling ?ctx exampleBrowser ?s = Inr ?s'"
    by (simp add: beginSampling_def Let_def exampleBuffering_def newModule_def)
  have "samplesBeingStored ?s'" by simp
  moreover have "\<not> samplesBeingStored ?s" by (simp add: exampleBuffering_def newModule_def)
  ultimately have ne: "?s' \<noteq> ?s" by metis
  have rest: "current ?s = None" "current ?s' \<noteq> None" "length (trace ?s') = 1"
    "samplingEnabled exampleBuffering = None"
    by (simp_all add: exampleBuffering_def newModule_def modelPush_def)
  from run ne rest show ?thesis by simp
qed

text \<open>
  C4, as the code has it. Once \<^verbatim>\<open>samplingEnabled\<close> holds a concrete boolean,
  \<^verbatim>\<open>beginSampling\<close> never draws again and leaves \<^verbatim>\<open>samplingEnabled\<close> as it is. When it is
  \<^verbatim>\<open>false\<close> the call is a no-op: the state is unchanged, no record is pushed, nothing is
  raised. When it is \<^verbatim>\<open>true\<close> and the in-memory buffer is present, the call pushes the
  buffered record as the new durable record and marks the session as durably storing.
\<close>

theorem C4_decided_never_redrawn:
  "(samplingEnabled s = Some False \<longrightarrow> beginSampling ctx b s = Inr s) \<and>
   (samplingEnabled s = Some True \<longrightarrow>
      (\<forall>s'. beginSampling ctx b s = Inr s' \<longrightarrow> samplingEnabled s' = Some True)) \<and>
   (samplingEnabled s = Some True \<and> initialKPIs s = Some k \<longrightarrow>
      (\<exists>s'. beginSampling ctx b s = Inr s' \<and>
            samplingEnabled s' = Some True \<and>
            current s' = Some (newKPIs ctx b s k) \<and>
            trace s' = trace s @ [ModelPush (newKPIs ctx b s k)] \<and>
            samplesBeingStored s'))"
proof (intro conjI impI allI)
  assume "samplingEnabled s = Some False"
  then show "beginSampling ctx b s = Inr s" by (simp add: beginSampling_def)
next
  fix s'
  assume "samplingEnabled s = Some True" and "beginSampling ctx b s = Inr s'"
  then show "samplingEnabled s' = Some True"
    by (auto simp: beginSampling_def modelPush_def split: option.splits)
next
  assume "samplingEnabled s = Some True \<and> initialKPIs s = Some k"
  then show "\<exists>s'. beginSampling ctx b s = Inr s' \<and>
            samplingEnabled s' = Some True \<and>
            current s' = Some (newKPIs ctx b s k) \<and>
            trace s' = trace s @ [ModelPush (newKPIs ctx b s k)] \<and>
            samplesBeingStored s'"
    by (simp add: beginSampling_def modelPush_def)
qed

theorem C4_decided_never_redrawn_witness:
  "beginSampling \<lparr>data_sample_rate = Some 1, server_time = 1000003\<rparr> exampleBrowser
     (exampleBuffering\<lparr>samplingEnabled := Some False\<rparr>)
   = Inr (exampleBuffering\<lparr>samplingEnabled := Some False\<rparr>) \<and>
   (\<exists>s'. beginSampling \<lparr>data_sample_rate = Some 1, server_time = 1000003\<rparr> exampleBrowser
            (exampleBuffering\<lparr>samplingEnabled := Some True\<rparr>) = Inr s' \<and>
         samplingEnabled s' = Some True \<and> samplesBeingStored s')"
proof -
  let ?ctx = "\<lparr>data_sample_rate = Some 1, server_time = 1000003\<rparr>"
  let ?f = "exampleBuffering\<lparr>samplingEnabled := Some False\<rparr>"
  let ?t = "exampleBuffering\<lparr>samplingEnabled := Some True\<rparr>"
  have f: "samplingEnabled ?f = Some False" by simp
  have t: "samplingEnabled ?t = Some True \<and> initialKPIs ?t = Some emptyKPIs"
    by (simp add: exampleBuffering_def newModule_def)
  from f C4_decided_never_redrawn [of ?f ?ctx exampleBrowser]
  have 1: "beginSampling ?ctx exampleBrowser ?f = Inr ?f" by blast
  from t C4_decided_never_redrawn [of ?t ?ctx exampleBrowser emptyKPIs]
  have 2: "\<exists>s'. beginSampling ?ctx exampleBrowser ?t = Inr s' \<and>
         samplingEnabled s' = Some True \<and> samplesBeingStored s'" by blast
  from 1 2 show ?thesis by blast
qed

subsection \<open>Start-time correction\<close>

lemma getCurrentEventStream_startTime [simp]:
  "getCurrentEventStream (s\<lparr>startTime := t\<rparr>) = getCurrentEventStream s"
  by (simp add: getCurrentEventStream_def currentOrEmpty_def modelGetCurrent_def)

lemma stream_Some_sampling:
  "getCurrentEventStream s = Some es \<Longrightarrow> samplingEnabled s \<noteq> Some False"
  by (auto simp: getCurrentEventStream_def)

lemma updateStartTime_stream:
  assumes "getCurrentEventStream s = Some es"
  shows "getCurrentEventStream (updateStartTime new s) =
           Some (map (shiftOffset (startTime s - new)) es)"
proof (cases "es = []")
  case True
  with assms show ?thesis by (simp add: updateStartTime_def)
next
  case False
  with assms stream_Some_sampling [OF assms] show ?thesis
    by (simp add: updateStartTime_def Let_def)
qed

lemma updateStartTime_startTime [simp]: "startTime (updateStartTime new s) = new"
  by (simp add: updateStartTime_def Let_def)

text \<open>
  C5. For every active event stream \<open>es\<close> and every correction of the start time from the
  old one to \<open>new\<close>, with \<open>d = old - new\<close>: afterwards the stream has the same tuples in the
  same order, each with its offset increased by \<open>d\<close> and nothing else changed, so the
  order of any two offsets and their difference are as before; the start time is \<open>new\<close>.
  The \<^verbatim>\<open>start_time\<close> message, which the built-in table has no entry for, does exactly
  this correction and records no tuple.
\<close>

theorem C5_start_time_correction_shifts_offsets:
  assumes "getCurrentEventStream s = Some es"
  shows "\<exists>es'. getCurrentEventStream (updateStartTime new s) = Some es' \<and>
           startTime (updateStartTime new s) = new \<and>
           length es' = length es \<and>
           (\<forall>i < length es.
              offset (es' ! i) = offset (es ! i) + (startTime s - new) \<and>
              tname (es' ! i) = tname (es ! i) \<and> rest (es' ! i) = rest (es ! i)) \<and>
           (\<forall>i < length es. \<forall>j < length es.
              (offset (es' ! i) \<le> offset (es' ! j)) = (offset (es ! i) \<le> offset (es ! j)) \<and>
              offset (es' ! j) - offset (es' ! i) = offset (es ! j) - offset (es ! i)) \<and>
           (new \<noteq> 0 \<and> mediatorToKPINameTable s ''start_time'' = None \<longrightarrow>
              addEvent clock ''start_time'' (Some (Time new)) s =
                Inr (None, updateStartTime new s))"
proof -
  let ?es' = "map (shiftOffset (startTime s - new)) es"
  have a: "getCurrentEventStream (updateStartTime new s) = Some ?es'"
    by (rule updateStartTime_stream [OF assms])
  have b: "\<forall>i < length es.
              offset (?es' ! i) = offset (es ! i) + (startTime s - new) \<and>
              tname (?es' ! i) = tname (es ! i) \<and> rest (?es' ! i) = rest (es ! i)"
    by (simp add: shiftOffset_def)
  have c: "\<forall>i < length es. \<forall>j < length es.
              (offset (?es' ! i) \<le> offset (?es' ! j)) = (offset (es ! i) \<le> offset (es ! j)) \<and>
              offset (?es' ! j) - offset (?es' ! i) = offset (es ! j) - offset (es ! i)"
    by (simp add: shiftOffset_def)
  have table: "mediatorToKPINameTable (updateStartTime new s) = mediatorToKPINameTable s"
    by (simp add: updateStartTime_def Let_def split: option.splits)
  have d: "new \<noteq> 0 \<and> mediatorToKPINameTable s ''start_time'' = None \<longrightarrow>
              addEvent clock ''start_time'' (Some (Time new)) s =
                Inr (None, updateStartTime new s)"
    by (simp add: addEvent_def getKPIName_def table Let_def)
  from a b c d show ?thesis by simp
qed

theorem C5_start_time_correction_shifts_offsets_witness:
  "getCurrentEventStream (updateStartTime 400 exampleBuffering) =
     Some [Tuple ''window.dom_loading'' 605 []]"
proof -
  have h: "getCurrentEventStream exampleBuffering = Some [Tuple ''window.dom_loading'' 5 []]"
    by (simp add: exampleBuffering_def newModule_def getCurrentEventStream_def)
  have st: "startTime exampleBuffering = 1000"
    by (simp add: exampleBuffering_def)
  from C5_start_time_correction_shifts_offsets [OF h, of 400 0]
  obtain es' where e: "getCurrentEventStream (updateStartTime 400 exampleBuffering) = Some es'"
    and l: "length es' = length [Tuple ''window.dom_loading'' 5 []]"
    and f: "\<forall>i < length [Tuple ''window.dom_loading'' 5 []].
              offset (es' ! i) = offset ([Tuple ''window.dom_loading'' 5 []] ! i)
                                   + (startTime exampleBuffering - 400) \<and>
              tname (es' ! i) = tname ([Tuple ''window.dom_loading'' 5 []] ! i) \<and>
              rest (es' ! i) = rest ([Tuple ''window.dom_loading'' 5 []] ! i)"
    by blast
  from l obtain t where t: "es' = [t]" by (cases es') auto
  from f t st have "offset t = 605 \<and> tname t = ''window.dom_loading'' \<and> rest t = []" by simp
  then have "t = Tuple ''window.dom_loading'' 605 []" by (cases t) simp
  with e t show ?thesis by simp
qed

subsection \<open>Collapsing a repeated network-completion event\<close>

lemma bumpRepeatCount_simps [simp]:
  "tname (bumpRepeatCount t) = tname t"
  "offset (bumpRepeatCount t) = offset t"
  by (simp_all add: bumpRepeatCount_def tupleSet_def)

lemma bumpRepeatCount_count:
  "tupleGet (bumpRepeatCount t) REPEAT_COUNT_INDEX = Num (repeatCountOr1 t + 1)"
  by (simp add: bumpRepeatCount_def tupleSet_def tupleGet_def REPEAT_COUNT_INDEX_def
      setCell_def getCell_def nth_append)

lemma bumpRepeatCount_length: "4 \<le> tupleLength (bumpRepeatCount t)"
  by (simp add: bumpRepeatCount_def tupleSet_def tupleLength_def REPEAT_COUNT_INDEX_def
      setCell_def)

lemma bumpRepeatCount_duration_cell:
  "tupleGet t 2 = Undef \<Longrightarrow> tupleGet (bumpRepeatCount t) 2 = Undef"
  by (cases "rest t")
     (auto simp: bumpRepeatCount_def tupleSet_def tupleGet_def REPEAT_COUNT_INDEX_def
        setCell_def getCell_def nth_append nth_Cons split: nat.splits)

lemma bumpRepeatCount_no_duration:
  "rest t = [] \<Longrightarrow> bumpRepeatCount t = Tuple (tname t) (offset t) [Undef, Num 2]"
  by (simp add: bumpRepeatCount_def tupleSet_def tupleGet_def REPEAT_COUNT_INDEX_def
      setCell_def getCell_def repeatCountOr1_def)

lemma preventDuplicate_collapsed:
  assumes "preventDuplicateXhrEvents eventName s = (Some t', s')"
  shows "\<exists>es l. getCurrentEventStream s = Some (es @ [l]) \<and> tname l = eventName \<and>
           isXhrComplete eventName \<and> t' = bumpRepeatCount l \<and>
           s' = setCurrentEventStream (es @ [t']) s"
proof -
  from assms obtain ev where ev: "getCurrentEventStream s = Some ev"
    by (auto simp: preventDuplicateXhrEvents_def split: option.splits)
  with assms have c: "isXhrComplete eventName" "ev \<noteq> []" "tname (last ev) = eventName"
    by (auto simp: preventDuplicateXhrEvents_def Let_def split: if_splits)
  with assms ev have r: "t' = bumpRepeatCount (last ev)"
    "s' = setCurrentEventStream (butlast ev @ [t']) s"
    by (auto simp: preventDuplicateXhrEvents_def Let_def)
  from c have "ev = butlast ev @ [last ev]" by simp
  with ev c r show ?thesis by metis
qed

text \<open>
  C10. Whenever \<^verbatim>\<open>preventDuplicateXhrEvents\<close> collapses an event into the last tuple, it
  writes the repeat count at index 3 of that tuple, whatever the tuple held. The collapsed
  tuple therefore has at least four cells and is never a three-cell tuple; when the tuple
  carried no duration (index 2 undefined), index 2 is still undefined afterwards, and a
  fresh two-cell tuple becomes \<^verbatim>\<open>[name, offset, undefined, 2]\<close>.
\<close>

theorem C10_repeat_count_at_index_three:
  assumes "preventDuplicateXhrEvents eventName s = (Some t', s')"
  shows "\<exists>es l. getCurrentEventStream s = Some (es @ [l]) \<and>
           getCurrentEventStream s' = Some (es @ [t']) \<and>
           t' = tupleSet l 3 (Num (repeatCountOr1 l + 1)) \<and>
           tupleGet t' 3 = Num (repeatCountOr1 l + 1) \<and>
           tupleLength t' \<noteq> 3 \<and> 4 \<le> tupleLength t' \<and>
           (tupleGet l 2 = Undef \<longrightarrow> tupleGet t' 2 = Undef) \<and>
           (rest l = [] \<longrightarrow> t' = Tuple eventName (offset l) [Undef, Num 2])"
proof -
  from preventDuplicate_collapsed [OF assms]
  obtain es l where g: "getCurrentEventStream s = Some (es @ [l])"
    and n: "tname l = eventName" and t': "t' = bumpRepeatCount l"
    and s': "s' = setCurrentEventStream (es @ [t']) s"
    by blast
  from g have "samplingEnabled s \<noteq> Some False" by (rule stream_Some_sampling)
  with s' have g': "getCurrentEventStream s' = Some (es @ [t'])" by simp
  have a: "t' = tupleSet l 3 (Num (repeatCountOr1 l + 1))"
    by (simp add: t' bumpRepeatCount_def REPEAT_COUNT_INDEX_def)
  have b: "tupleGet t' 3 = Num (repeatCountOr1 l + 1)"
    using bumpRepeatCount_count [of l] by (simp add: t' REPEAT_COUNT_INDEX_def)
  have c: "4 \<le> tupleLength t'" by (simp add: t' bumpRepeatCount_length)
  have d: "tupleGet l 2 = Undef \<longrightarrow> tupleGet t' 2 = Undef"
    by (simp add: t' bumpRepeatCount_duration_cell)
  have e: "rest l = [] \<longrightarrow> t' = Tuple eventName (offset l) [Undef, Num 2]"
    using n by (simp add: t' bumpRepeatCount_no_duration)
  from g g' a b c d e show ?thesis by auto
qed

theorem C10_repeat_count_at_index_three_witness:
  "\<exists>s'. preventDuplicateXhrEvents ''xhr_complete.GET/wsapi/session_context''
           (exampleBuffering\<lparr>initialEventStream :=
              Some [Tuple ''xhr_complete.GET/wsapi/session_context'' 7 []]\<rparr>)
         = (Some (Tuple ''xhr_complete.GET/wsapi/session_context'' 7 [Undef, Num 2]), s') \<and>
         getCurrentEventStream s' =
           Some [Tuple ''xhr_complete.GET/wsapi/session_context'' 7 [Undef, Num 2]]"
proof -
  let ?n = "''xhr_complete.GET/wsapi/session_context''"
  let ?s = "exampleBuffering\<lparr>initialEventStream := Some [Tuple ?n 7 []]\<rparr>"
  let ?t = "Tuple ?n 7 [Undef, Num 2]"
  let ?s' = "setCurrentEventStream [?t] ?s"
  have run: "preventDuplicateXhrEvents ?n ?s = (Some ?t, ?s')"
    by (simp add: preventDuplicateXhrEvents_def getCurrentEventStream_def exampleBuffering_def
        newModule_def isXhrComplete_def Let_def bumpRepeatCount_no_duration)
  from C10_repeat_count_at_index_three [OF run]
  obtain es l where "getCurrentEventStream ?s' = Some (es @ [?t])"
    and "getCurrentEventStream ?s = Some (es @ [l])" by blast
  moreover have "getCurrentEventStream ?s = Some [Tuple ?n 7 []]"
    by (simp add: getCurrentEventStream_def exampleBuffering_def newModule_def)
  ultimately have "getCurrentEventStream ?s' = Some [?t]" by simp
  with run show ?thesis by blast
qed

subsection \<open>Deduplication of consecutive network-completion events\<close>

lemma distinctCompletions_snoc:
  "distinctCompletions (ns @ [n]) =
     (distinctCompletions ns \<and> (ns = [] \<or> \<not> (isXhrComplete n \<and> last ns = n)))"
  by (induction ns rule: distinctCompletions.induct) auto

lemma distinctCompletions_noMissedDuplicate:
  "distinctCompletions (map tname es) \<Longrightarrow> noMissedDuplicate es"
  by (induction es rule: noMissedDuplicate.induct) (auto simp: missedDuplicate_def)

lemma noMissedDuplicate_nth:
  "noMissedDuplicate es \<Longrightarrow> Suc i < length es \<Longrightarrow> \<not> missedDuplicate (es ! i) (es ! Suc i)"
proof (induction es arbitrary: i rule: noMissedDuplicate.induct)
  case (3 a b r)
  then show ?case by (cases i) auto
qed simp_all

lemma tname_shiftOffset [simp]: "tname (shiftOffset d t) = tname t"
  by (simp add: shiftOffset_def)

lemma names_shift [simp]: "map tname (map (shiftOffset d) es) = map tname es"
  by simp

lemma names_shift_comp [simp]: "map (tname \<circ> shiftOffset d) es = map tname es"
  by simp

lemma names_collapse [simp]:
  "map tname (es @ [bumpRepeatCount l]) = map tname (es @ [l])"
  by simp

lemma streamsOK_get:
  "streamsOK s \<Longrightarrow> getCurrentEventStream s = Some es \<Longrightarrow> distinctCompletions (map tname es)"
  by (auto simp: streamsOK_def streamOK_def storedStream_def getCurrentEventStream_def
      currentOrEmpty_def modelGetCurrent_def emptyKPIs_def split: if_splits option.splits)

lemma streamsOK_set:
  "streamsOK s \<Longrightarrow> distinctCompletions (map tname es) \<Longrightarrow>
   streamsOK (setCurrentEventStream es s)"
  by (auto simp: streamsOK_def streamOK_def storedStream_def setCurrentEventStream_def
      modelSetCurrent_def split: option.splits)

lemma streamsOK_startTime [simp]: "streamsOK (s\<lparr>startTime := t\<rparr>) = streamsOK s"
  by (simp add: streamsOK_def storedStream_def)

lemma streamsOK_updateStartTime:
  "streamsOK s \<Longrightarrow> streamsOK (updateStartTime t s)"
  by (auto simp: updateStartTime_def Let_def split: option.splits
      intro!: streamsOK_set dest: streamsOK_get)

lemma streamsOK_preventDuplicate:
  assumes "streamsOK s" and "preventDuplicateXhrEvents n s = (r, s')"
  shows "streamsOK s'"
proof (cases r)
  case None
  with assms have "s' = s"
    by (auto simp: preventDuplicateXhrEvents_def Let_def split: option.splits if_splits)
  with assms show ?thesis by simp
next
  case (Some t')
  with assms preventDuplicate_collapsed [of n s t' s']
  obtain es l where g: "getCurrentEventStream s = Some (es @ [l])"
    and t': "t' = bumpRepeatCount l" and s': "s' = setCurrentEventStream (es @ [t']) s"
    by blast
  from streamsOK_get [OF assms(1) g] have "distinctCompletions (map tname (es @ [t']))"
    by (simp add: t')
  with assms(1) s' show ?thesis by (simp add: streamsOK_set)
qed

lemma preventDuplicate_None:
  "preventDuplicateXhrEvents n s = (None, s') \<Longrightarrow> getCurrentEventStream s = Some es \<Longrightarrow>
   s' = s \<and> (es = [] \<or> \<not> (isXhrComplete n \<and> tname (last es) = n))"
  by (auto simp: preventDuplicateXhrEvents_def Let_def split: if_splits)

lemma streamsOK_addEvent:
  assumes ok: "streamsOK s" and run: "addEvent clock msg data0 s = Inr (r, s')"
  shows "streamsOK s'"
proof -
  let ?data = "orEmpty data0"
  from run obtain s1 where
    s1: "(if msg = ''start_time'' then
            (case ?data of Time t \<Rightarrow> Inr (updateStartTime t s) | _ \<Rightarrow> Inl NaNTime)
          else Inr s) = Inr s1"
    by (auto simp: addEvent_def Let_def split: sum.splits)
  have ok1: "streamsOK s1"
  proof (cases "msg = ''start_time''")
    case True
    with s1 obtain t where "s1 = updateStartTime t s"
      by (cases ?data) auto
    with ok show ?thesis by (simp add: streamsOK_updateStartTime)
  next
    case False
    with s1 ok show ?thesis by simp
  qed
  show ?thesis
  proof (cases "samplingEnabled s1 = Some False")
    case True
    with run s1 have "s' = s1" by (simp add: addEvent_def Let_def)
    with ok1 show ?thesis by simp
  next
    case en: False
    show ?thesis
    proof (cases "getKPIName (mediatorToKPINameTable s1) msg ?data")
      case (Inl e)
      with run s1 en show ?thesis by (simp add: addEvent_def Let_def)
    next
      case (Inr nm)
      show ?thesis
      proof (cases "nm = None \<or> nm = Some []")
        case True
        with run s1 en Inr have "s' = s1" by (auto simp: addEvent_def Let_def)
        with ok1 show ?thesis by simp
      next
        case False
        then obtain n where n: "nm = Some n" "n \<noteq> []" by auto
        obtain q s2 where p: "preventDuplicateXhrEvents n s1 = (q, s2)"
          by (cases "preventDuplicateXhrEvents n s1") auto
        have ok2: "streamsOK s2" by (rule streamsOK_preventDuplicate [OF ok1 p])
        show ?thesis
        proof (cases q)
          case (Some t)
          with run s1 en Inr n p have "s' = s2" by (simp add: addEvent_def Let_def)
          with ok2 show ?thesis by simp
        next
          case None
          show ?thesis
          proof (cases "getCurrentEventStream s2")
            case gn: None
            with run s1 en Inr n p None have "s' = s2" by (simp add: addEvent_def Let_def)
            with ok2 show ?thesis by simp
          next
            case (Some es)
            let ?t = "newEventData n clock ?data s2"
            from run s1 en Inr n p None Some
            have s': "s' = setCurrentEventStream (es @ [?t]) s2"
              by (simp add: addEvent_def Let_def)
            from p None have "s2 = s1"
              by (auto simp: preventDuplicateXhrEvents_def Let_def split: option.splits if_splits)
            with p None Some preventDuplicate_None [of n s1 s2 es]
            have fresh: "es = [] \<or> \<not> (isXhrComplete n \<and> tname (last es) = n)" by simp
            have "distinctCompletions (map tname es @ [n])"
              using streamsOK_get [OF ok2 Some] fresh
              by (auto simp: distinctCompletions_snoc last_map)
            then have "distinctCompletions (map tname (es @ [?t]))"
              by (simp add: newEventData_def)
            with ok2 s' show ?thesis by (simp add: streamsOK_set)
          qed
        qed
      qed
    qed
  qed
qed


lemma extendKPIs_stream:
  "filter streamKey kd = [] \<Longrightarrow> event_stream (foldl assignKey cur kd) = event_stream cur"
proof (induction kd arbitrary: cur)
  case Nil
  then show ?case by simp
next
  case (Cons k kd)
  from Cons.prems have "\<not> streamKey k" and r: "filter streamKey kd = []"
    by (auto split: if_splits)
  then have "event_stream (assignKey cur k) = event_stream cur" by (cases k) simp_all
  with Cons.IH [OF r, of "assignKey cur k"] show ?case by simp
qed

lemma streamsOK_addKPIData:
  "streamsOK s \<Longrightarrow> filter streamKey kd = [] \<Longrightarrow> streamsOK (addKPIData kd s)"
  by (auto simp: addKPIData_def getCurrentKPIs_def setCurrentKPIs_def modelSetCurrent_def
      modelGetCurrent_def streamsOK_def storedStream_def extendKPIs_def extendKPIs_stream
      split: option.splits if_splits)

lemma streamsOK_onKPIData:
  "streamsOK s \<Longrightarrow> keepsStream (Message clock msg data) \<Longrightarrow> streamsOK (onKPIData data s)"
proof (cases data)
  case None
  assume "streamsOK s"
  with None show ?thesis by (simp add: streamsOK_addKPIData)
next
  case (Some p)
  assume ok: "streamsOK s" and k: "keepsStream (Message clock msg data)"
  with Some show ?thesis
    by (cases p) (simp_all add: streamsOK_addKPIData)
qed

lemma streamsOK_beginSampling:
  "streamsOK s \<Longrightarrow> beginSampling ctx b s = Inr s' \<Longrightarrow> streamsOK s'"
  by (auto simp: beginSampling_def Let_def modelPush_def newKPIs_def streamsOK_def
      storedStream_def streamOK_def split: option.splits if_splits)

lemma streamsOK_step:
  assumes "streamsOK s" and "keepsStream i" and "step i s = Inr s'"
  shows "streamsOK s'"
proof (cases i)
  case (Message clock msg data)
  show ?thesis
  proof (cases "subscribed s")
    case True
    with assms(3) Message obtain r s1 where a: "addEvent clock msg data s = Inr (r, s1)"
      and s': "s' = (if msg = ''kpi_data'' then onKPIData data s1 else s1)"
      by (auto split: sum.splits)
    from streamsOK_addEvent [OF assms(1) a] have "streamsOK s1" .
    with s' assms(2) Message show ?thesis by (auto intro: streamsOK_onKPIData)
  next
    case False
    with assms Message show ?thesis by simp
  qed
next
  case (PublishDone status)
  with assms show ?thesis
    by (auto simp: publishCallback_def modelPublishCurrentDone_def streamsOK_def
        storedStream_def streamOK_def split: option.splits callback.splits)
next
  case (ContextReady ctx b)
  show ?thesis
  proof (cases "pending s")
    case None
    with assms ContextReady show ?thesis by simp
  next
    case (Some c)
    show ?thesis
    proof (cases c)
      case AwaitPublish
      with assms ContextReady Some show ?thesis by simp
    next
      case (AwaitContext status)
      let ?s0 = "s\<lparr>pending := None, trace := trace s @ [BeginSampling]\<rparr>"
      from assms(3) ContextReady Some AwaitContext
      obtain s1 where b: "beginSampling ctx b ?s0 = Inr s1"
        and s': "s' = s1\<lparr>trace := trace s1 @
                 [Publish (if status then ''interaction_data_send_complete''
                           else ''interaction_data_send_error'')]\<rparr>"
        by (auto simp: contextCallback_def split: sum.splits)
      from assms(1) have "streamsOK ?s0" by (simp add: streamsOK_def storedStream_def)
      from streamsOK_beginSampling [OF this b] have "streamsOK s1" .
      with s' show ?thesis by (simp add: streamsOK_def storedStream_def)
    qed
  qed
qed

lemma streamsOK_run:
  "streamsOK s \<Longrightarrow> \<forall>i \<in> set inputs. keepsStream i \<Longrightarrow> run inputs s = Inr s' \<Longrightarrow>
   streamsOK s'"
proof (induction inputs arbitrary: s)
  case Nil
  then show ?case by simp
next
  case (Cons i inputs)
  from Cons.prems(3) obtain s1 where st: "step i s = Inr s1" and r: "run inputs s1 = Inr s'"
    by (auto split: sum.splits)
  from Cons.prems have "streamsOK s1" by (auto intro: streamsOK_step [OF _ _ st])
  with Cons.IH [of s1] Cons.prems(2) r show ?case by simp
qed

lemma streamsOK_start:
  "streamOK (storedStream s) \<Longrightarrow> start opts b (newModule (current s)) = Inr s' \<Longrightarrow>
   streamsOK s'"
  by (auto simp: start_def Let_def newModule_def publishCurrent_def modelGetCurrent_def
      streamsOK_def storedStream_def streamOK_def split: if_splits option.splits)

lemma streamsOK_browse:
  "streamsOK s \<Longrightarrow> \<forall>p \<in> set pages. \<forall>i \<in> set (page_inputs p). keepsStream i \<Longrightarrow>
   browse pages s = Inr s' \<Longrightarrow> streamsOK s'"
proof (induction pages arbitrary: s)
  case Nil
  then show ?case by simp
next
  case (Cons p pages)
  from Cons.prems(3) obtain s0 s1 where
    a: "start (page_options p) (page_browser p) (newModule (current s)) = Inr s0"
    and b: "run (page_inputs p) s0 = Inr s1" and c: "browse pages s1 = Inr s'"
    by (auto split: sum.splits)
  from Cons.prems(1) have "streamOK (storedStream s)" by (simp add: streamsOK_def)
  from streamsOK_start [OF this a] have "streamsOK s0" .
  with Cons.prems(2) b have "streamsOK s1" by (auto intro: streamsOK_run)
  with Cons.IH [of s1] Cons.prems(2) c show ?case by simp
qed

lemma streamsOK_newModule: "streamsOK (newModule None)"
  by (simp add: streamsOK_def streamOK_def storedStream_def newModule_def)


lemma getCell_setCell [simp]: "getCell (setCell xs i a) i = a"
  by (simp add: getCell_def setCell_def nth_append)

lemma setCell_setCell [simp]: "setCell (setCell xs i a) i b = setCell xs i b"
  by (simp add: setCell_def list_update_append)

lemma bumpRepeatCount_fresh:
  "tupleGet t 3 = Undef \<Longrightarrow> bumpRepeatCount t = tupleSet t 3 (Num 2)"
  by (simp add: bumpRepeatCount_def repeatCountOr1_def REPEAT_COUNT_INDEX_def)

lemma bumpRepeatCount_again:
  "k \<noteq> 0 \<Longrightarrow> bumpRepeatCount (tupleSet t 3 (Num k)) = tupleSet t 3 (Num (k + 1))"
  by (simp add: bumpRepeatCount_def repeatCountOr1_def REPEAT_COUNT_INDEX_def tupleSet_def
      tupleGet_def)

lemma newEventData_simps [simp]:
  "tname (newEventData n clock data s) = n"
  "tupleGet (newEventData n clock data s) 3 = Undef"
  by (simp_all add: newEventData_def tupleGet_def getCell_def)

lemma newEventData_set [simp]:
  "newEventData n clock data (setCurrentEventStream es s) = newEventData n clock data s"
  by (simp add: newEventData_def)

lemma tname_tupleSet [simp]: "tname (tupleSet t i v) = tname t"
  by (simp add: tupleSet_def)

text \<open>
  The name given to a malformed report does not match the pattern, so repeated malformed
  reports are recorded one tuple each.
\<close>

lemma malformed_report_not_matched: "\<not> isXhrComplete ''xhr.malformed_report''"
  by (simp add: isXhrComplete_def)

lemma isXhrComplete_nonempty: "isXhrComplete n \<Longrightarrow> n \<noteq> []"
  by (auto simp: isXhrComplete_def)

lemma addEvent_fresh:
  assumes "samplingEnabled s \<noteq> Some False"
    and "getCurrentEventStream s = Some es"
    and "msg \<noteq> ''start_time''"
    and "getKPIName (mediatorToKPINameTable s) msg (orEmpty data0) = Inr (Some n)"
    and "n \<noteq> []"
    and "es = [] \<or> tname (last es) \<noteq> n"
  shows "addEvent clock msg data0 s =
           Inr (Some (newEventData n clock (orEmpty data0) s),
                setCurrentEventStream (es @ [newEventData n clock (orEmpty data0) s]) s)"
proof -
  from assms(2,6) have "preventDuplicateXhrEvents n s = (None, s)"
    by (auto simp: preventDuplicateXhrEvents_def Let_def)
  with assms show ?thesis by (simp add: addEvent_def Let_def)
qed

lemma addEvent_collapse:
  assumes "samplingEnabled s \<noteq> Some False"
    and "getCurrentEventStream s = Some (es @ [l])"
    and "msg \<noteq> ''start_time''"
    and "getKPIName (mediatorToKPINameTable s) msg (orEmpty data0) = Inr (Some n)"
    and "isXhrComplete n"
    and "tname l = n"
  shows "addEvent clock msg data0 s =
           Inr (None, setCurrentEventStream (es @ [bumpRepeatCount l]) s)"
proof -
  from assms(2,5,6) have "preventDuplicateXhrEvents n s =
      (Some (bumpRepeatCount l), setCurrentEventStream (es @ [bumpRepeatCount l]) s)"
    by (simp add: preventDuplicateXhrEvents_def Let_def)
  with assms isXhrComplete_nonempty [OF assms(5)] show ?thesis
    by (simp add: addEvent_def Let_def)
qed

lemma consecutive_completions:
  assumes en: "samplingEnabled s \<noteq> Some False"
    and g: "getCurrentEventStream s = Some es"
    and fresh: "es = [] \<or> tname (last es) \<noteq> n"
    and x: "isXhrComplete n"
    and m: "msg \<noteq> ''start_time''" "msg' \<noteq> ''start_time''"
    and k1: "getKPIName (mediatorToKPINameTable s) msg (orEmpty d1) = Inr (Some n)"
    and k2: "getKPIName (mediatorToKPINameTable s) msg (orEmpty d2) = Inr (Some n)"
    and k3: "getKPIName (mediatorToKPINameTable s) msg (orEmpty d3) = Inr (Some n)"
    and k': "getKPIName (mediatorToKPINameTable s) msg' (orEmpty d') = Inr (Some n')"
    and n': "n' \<noteq> []" "n' \<noteq> n"
  shows "\<exists>t1 s1 s2 s3 t4 s4 t5 s5.
        addEvent c1 msg d1 s = Inr (Some t1, s1) \<and> tname t1 = n \<and> tupleGet t1 3 = Undef \<and>
        getCurrentEventStream s1 = Some (es @ [t1]) \<and>
        addEvent c2 msg d2 s1 = Inr (None, s2) \<and>
        getCurrentEventStream s2 = Some (es @ [tupleSet t1 3 (Num 2)]) \<and>
        addEvent c3 msg d3 s2 = Inr (None, s3) \<and>
        getCurrentEventStream s3 = Some (es @ [tupleSet t1 3 (Num 3)]) \<and>
        addEvent c4 msg' d' s2 = Inr (Some t4, s4) \<and> tname t4 = n' \<and>
        getCurrentEventStream s4 = Some (es @ [tupleSet t1 3 (Num 2), t4]) \<and>
        addEvent c5 msg d3 s4 = Inr (Some t5, s5) \<and> tname t5 = n \<and>
        tupleGet t5 3 = Undef \<and>
        getCurrentEventStream s5 = Some (es @ [tupleSet t1 3 (Num 2), t4, t5])"
proof -
  let ?t1 = "newEventData n c1 (orEmpty d1) s"
  let ?s1 = "setCurrentEventStream (es @ [?t1]) s"
  let ?u = "tupleSet ?t1 3 (Num 2)"
  let ?s2 = "setCurrentEventStream (es @ [?u]) ?s1"
  let ?s3 = "setCurrentEventStream (es @ [tupleSet ?t1 3 (Num 3)]) ?s2"
  let ?t4 = "newEventData n' c4 (orEmpty d') s"
  let ?s4 = "setCurrentEventStream (es @ [?u, ?t4]) ?s2"
  let ?t5 = "newEventData n c5 (orEmpty d3) s"
  let ?s5 = "setCurrentEventStream (es @ [?u, ?t4, ?t5]) ?s4"
  have ne: "n \<noteq> []" by (rule isXhrComplete_nonempty [OF x])
  have a1: "addEvent c1 msg d1 s = Inr (Some ?t1, ?s1)"
    by (rule addEvent_fresh [OF en g m(1) k1 ne fresh])
  have g1: "getCurrentEventStream ?s1 = Some (es @ [?t1])" using en by simp
  have a2: "addEvent c2 msg d2 ?s1 = Inr (None, ?s2)"
    using addEvent_collapse [of ?s1 es ?t1 msg d2 n c2] en g1 m(1) k2 x
    by (simp add: bumpRepeatCount_fresh)
  have g2: "getCurrentEventStream ?s2 = Some (es @ [?u])" using en by simp
  have a3: "addEvent c3 msg d3 ?s2 = Inr (None, ?s3)"
    using addEvent_collapse [of ?s2 es ?u msg d3 n c3] en g2 m(1) k3 x
    by (simp add: bumpRepeatCount_again)
  have g3: "getCurrentEventStream ?s3 = Some (es @ [tupleSet ?t1 3 (Num 3)])" using en by simp
  have a4: "addEvent c4 msg' d' ?s2 = Inr (Some ?t4, ?s4)"
    using addEvent_fresh [of ?s2 "es @ [?u]" msg' d' n' c4] en g2 m(2) k' n' by simp
  have g4: "getCurrentEventStream ?s4 = Some (es @ [?u, ?t4])" using en by simp
  have a5: "addEvent c5 msg d3 ?s4 = Inr (Some ?t5, ?s5)"
    using addEvent_fresh [of ?s4 "es @ [?u, ?t4]" msg d3 n c5] en g4 m(1) k3 ne n' by simp
  have g5: "getCurrentEventStream ?s5 = Some (es @ [?u, ?t4, ?t5])" using en by simp
  have nm: "tname ?t1 = n" "tupleGet ?t1 3 = Undef" "tname ?t4 = n'" "tname ?t5 = n"
    "tupleGet ?t5 3 = Undef" by simp_all
  from a1 g1 a2 g2 a3 g3 a4 g4 a5 g5 nm show ?thesis by blast
qed


lemma addEvent_not_completion:
  assumes "samplingEnabled s \<noteq> Some False"
    and "getCurrentEventStream s = Some es"
    and "msg \<noteq> ''start_time''"
    and "getKPIName (mediatorToKPINameTable s) msg (orEmpty data0) = Inr (Some n)"
    and "n \<noteq> []"
    and "\<not> isXhrComplete n"
  shows "addEvent clock msg data0 s =
           Inr (Some (newEventData n clock (orEmpty data0) s),
                setCurrentEventStream (es @ [newEventData n clock (orEmpty data0) s]) s)"
  using assms by (simp add: addEvent_def Let_def preventDuplicate_not_xhr)

lemma malformed_name:
  "getKPIName MediatorToKPINameTable ''xhr_complete'' (orEmpty None) =
     Inr (Some ''xhr.malformed_report'')"
  by (simp add: getKPIName_def table_xhr_complete removeGetData_def emptyObj_def)

lemma malformed_twice:
  "addEvent 1001 ''xhr_complete'' None exampleBuffering =
     Inr (Some (Tuple ''xhr.malformed_report'' 1 []),
          setCurrentEventStream
            [Tuple ''window.dom_loading'' 5 [], Tuple ''xhr.malformed_report'' 1 []]
            exampleBuffering)"
  "addEvent 1002 ''xhr_complete'' None
     (setCurrentEventStream
        [Tuple ''window.dom_loading'' 5 [], Tuple ''xhr.malformed_report'' 1 []]
        exampleBuffering) =
     Inr (Some (Tuple ''xhr.malformed_report'' 2 []),
          setCurrentEventStream
            [Tuple ''window.dom_loading'' 5 [], Tuple ''xhr.malformed_report'' 1 [],
             Tuple ''xhr.malformed_report'' 2 []]
            (setCurrentEventStream
               [Tuple ''window.dom_loading'' 5 [], Tuple ''xhr.malformed_report'' 1 []]
               exampleBuffering))"
proof -
  let ?s1 = "setCurrentEventStream
        [Tuple ''window.dom_loading'' 5 [], Tuple ''xhr.malformed_report'' 1 []]
        exampleBuffering"
  have en: "samplingEnabled exampleBuffering \<noteq> Some False"
    and g: "getCurrentEventStream exampleBuffering = Some [Tuple ''window.dom_loading'' 5 []]"
    and tb: "mediatorToKPINameTable exampleBuffering = MediatorToKPINameTable"
    and st: "startTime exampleBuffering = 1000"
    by (simp_all add: exampleBuffering_def newModule_def getCurrentEventStream_def)
  have nx: "\<not> isXhrComplete ''xhr.malformed_report''" by (rule malformed_report_not_matched)
  have k: "getKPIName (mediatorToKPINameTable exampleBuffering) ''xhr_complete''
             (orEmpty None) = Inr (Some ''xhr.malformed_report'')"
    by (simp only: tb malformed_name)
  have d1: "newEventData ''xhr.malformed_report'' 1001 (Obj emptyObj) exampleBuffering =
              Tuple ''xhr.malformed_report'' 1 []"
    by (simp add: newEventData_def eventTimeOr_def st emptyObj_def)
  from addEvent_not_completion [OF en g _ k _ nx, of 1001]
  show "addEvent 1001 ''xhr_complete'' None exampleBuffering =
     Inr (Some (Tuple ''xhr.malformed_report'' 1 []), ?s1)"
    by (simp add: d1)
  have en1: "samplingEnabled ?s1 \<noteq> Some False" using en by simp
  have g1: "getCurrentEventStream ?s1 =
      Some [Tuple ''window.dom_loading'' 5 [], Tuple ''xhr.malformed_report'' 1 []]"
    using en by simp
  have k1: "getKPIName (mediatorToKPINameTable ?s1) ''xhr_complete''
             (orEmpty None) = Inr (Some ''xhr.malformed_report'')"
    by (simp only: setCurrentEventStream_fields tb malformed_name)
  have d2: "newEventData ''xhr.malformed_report'' 1002 (Obj emptyObj) exampleBuffering =
              Tuple ''xhr.malformed_report'' 2 []"
    by (simp add: newEventData_def eventTimeOr_def st emptyObj_def)
  from addEvent_not_completion [OF en1 g1 _ k1 _ nx, of 1002]
  show "addEvent 1002 ''xhr_complete'' None ?s1 =
     Inr (Some (Tuple ''xhr.malformed_report'' 2 []),
          setCurrentEventStream
            [Tuple ''window.dom_loading'' 5 [], Tuple ''xhr.malformed_report'' 1 [],
             Tuple ''xhr.malformed_report'' 2 []] ?s1)"
    by (simp add: d2)
qed

lemma overwritten_session:
  "\<exists>s'. browse [exampleOverwrite] (newModule None) = Inr s' \<and>
        getCurrentEventStream s' =
          Some [Tuple ''xhr_complete.GET/wsapi/session_context'' 1 [],
                Tuple ''xhr_complete.GET/wsapi/session_context'' 2 []]"
  by (simp add: exampleOverwrite_def exampleBrowser_def newModule_def start_def
      publishCurrent_def publishCallback_def modelPublishCurrentDone_def
      contextCallback_def beginSampling_def modelPush_def newKPIs_def addEvent_def
      getKPIName_def MediatorToKPINameTable_def tableEntries_def inheritedProperties_def
      addKPIData_def getCurrentKPIs_def setCurrentKPIs_def extendKPIs_def
      getCurrentEventStream_def modelSetCurrent_def
      modelGetCurrent_def currentOrEmpty_def emptyObj_def emptyKPIs_def Let_def
      sampleRate_def langOrNull_def)



text \<open>
  A session in which the same network-completion event arrives before and after the
  sampling decision, followed by another event.
\<close>

lemma example_session:
  "\<exists>s'. browse [examplePage] (newModule None) = Inr s' \<and>
        getCurrentEventStream s' =
          Some [Tuple ''xhr_complete.GET/wsapi/session_context'' 1 [Undef, Num 2],
                Tuple ''user.user_staged'' 3 []]"
  by (simp add: examplePage_def exampleXhr_def exampleBrowser_def newModule_def start_def
      publishCurrent_def publishCallback_def modelPublishCurrentDone_def
      contextCallback_def beginSampling_def modelPush_def newKPIs_def addEvent_def
      getKPIName_def MediatorToKPINameTable_def tableEntries_def inheritedProperties_def
      removeGetData_def beforeQuery_def preventDuplicateXhrEvents_def
      getCurrentEventStream_def setCurrentEventStream_def modelSetCurrent_def
      modelGetCurrent_def currentOrEmpty_def newEventData_def eventTimeOr_def
      isXhrComplete_def bumpRepeatCount_def tupleSet_def tupleGet_def setCell_def getCell_def
      repeatCountOr1_def REPEAT_COUNT_INDEX_def emptyObj_def emptyKPIs_def Let_def
      sampleRate_def langOrNull_def)



subsection \<open>The order of publishing and deciding\<close>

lemma controlKept_refl [simp]: "controlKept s s"
  by (simp add: controlKept_def)

lemma controlKept_trans: "controlKept s s1 \<Longrightarrow> controlKept s1 s2 \<Longrightarrow> controlKept s s2"
  by (auto simp: controlKept_def)

lemma controlKept_set [simp]: "controlKept s (setCurrentEventStream es s)"
  by (simp add: controlKept_def setCurrentEventStream_def modelSetCurrent_def)

lemma controlKept_updateStartTime [simp]: "controlKept s (updateStartTime t s)"
  by (simp add: controlKept_def updateStartTime_def Let_def setCurrentEventStream_def
      modelSetCurrent_def split: option.splits)

lemma controlKept_preventDuplicate:
  "preventDuplicateXhrEvents n s = (r, s') \<Longrightarrow> controlKept s s'"
  by (auto simp: preventDuplicateXhrEvents_def Let_def split: option.splits if_splits)

lemma controlKept_addEvent:
  assumes run: "addEvent clock msg data0 s = Inr (r, s')"
  shows "controlKept s s'"
proof -
  let ?data = "orEmpty data0"
  from run obtain s1 where
    s1: "(if msg = ''start_time'' then
            (case ?data of Time t \<Rightarrow> Inr (updateStartTime t s) | _ \<Rightarrow> Inl NaNTime)
          else Inr s) = Inr s1"
    by (auto simp: addEvent_def Let_def split: sum.splits)
  have k1: "controlKept s s1"
  proof (cases "msg = ''start_time''")
    case True
    with s1 obtain t where "s1 = updateStartTime t s"
      by (cases ?data) auto
    then show ?thesis by simp
  next
    case False
    with s1 show ?thesis by simp
  qed
  have "controlKept s1 s'"
  proof (cases "samplingEnabled s1 = Some False")
    case True
    with run s1 have "s' = s1" by (simp add: addEvent_def Let_def)
    then show ?thesis by simp
  next
    case en: False
    show ?thesis
    proof (cases "getKPIName (mediatorToKPINameTable s1) msg ?data")
      case (Inl e)
      with run s1 en show ?thesis by (simp add: addEvent_def Let_def)
    next
      case (Inr nm)
      show ?thesis
      proof (cases "nm = None \<or> nm = Some []")
        case True
        with run s1 en Inr have "s' = s1" by (auto simp: addEvent_def Let_def)
        then show ?thesis by simp
      next
        case False
        then obtain n where n: "nm = Some n" "n \<noteq> []" by auto
        obtain q s2 where p: "preventDuplicateXhrEvents n s1 = (q, s2)"
          by (cases "preventDuplicateXhrEvents n s1") auto
        have k2: "controlKept s1 s2" by (rule controlKept_preventDuplicate [OF p])
        show ?thesis
        proof (cases q)
          case (Some t)
          with run s1 en Inr n p have "s' = s2" by (simp add: addEvent_def Let_def)
          with k2 show ?thesis by simp
        next
          case None
          show ?thesis
          proof (cases "getCurrentEventStream s2")
            case gn: None
            with run s1 en Inr n p None have "s' = s2" by (simp add: addEvent_def Let_def)
            with k2 show ?thesis by simp
          next
            case (Some es)
            with run s1 en Inr n p None
            have "s' = setCurrentEventStream (es @ [newEventData n clock ?data s2]) s2"
              by (simp add: addEvent_def Let_def)
            then have "controlKept s2 s'" by simp
            with k2 show ?thesis by (rule controlKept_trans)
          qed
        qed
      qed
    qed
  qed
  with k1 show ?thesis by (rule controlKept_trans)
qed

lemma controlKept_onKPIData: "controlKept s (onKPIData data s)"
proof -
  have "\<And>kd. controlKept s (addKPIData kd s)"
    by (auto simp: controlKept_def addKPIData_def setCurrentKPIs_def modelSetCurrent_def
        split: option.splits)
  then show ?thesis by (cases "(data, s)" rule: onKPIData.cases) simp_all
qed

lemma controlKept_message:
  assumes "step (Message clock msg data) s = Inr s'"
  shows "controlKept s s'"
proof (cases "subscribed s")
  case True
  with assms obtain r s1 where a: "addEvent clock msg data s = Inr (r, s1)"
    and s': "s' = (if msg = ''kpi_data'' then onKPIData data s1 else s1)"
    by (auto split: sum.splits)
  have 1: "controlKept s s1" by (rule controlKept_addEvent [OF a])
  have 2: "controlKept s1 s'" using s' by (simp add: controlKept_onKPIData)
  from 1 2 show ?thesis by (rule controlKept_trans)
next
  case False
  with assms show ?thesis by simp
qed

lemma sessionPhase_kept:
  "controlKept s s' \<Longrightarrow> sessionPhase stored s \<Longrightarrow> sessionPhase stored s'"
  by (auto simp: controlKept_def sessionPhase_def split: option.splits callback.splits)

lemma beginSampling_trace:
  assumes "beginSampling ctx b s = Inr s'"
  shows "pending s' = pending s \<and>
         (trace s' = trace s \<or> (\<exists>d. trace s' = trace s @ [ModelPush d]))"
proof (cases "samplingEnabled s")
  case None
  with assms show ?thesis
    by (cases "mathRandom b \<le> sampleRate ctx"; cases "initialKPIs s")
       (auto simp: beginSampling_def modelPush_def Let_def)
next
  case (Some e)
  with assms show ?thesis
    by (cases e; cases "initialKPIs s") (auto simp: beginSampling_def modelPush_def Let_def)
qed

lemma sessionPhase_context:
  assumes ph: "sessionPhase stored s" and p: "pending s = Some (AwaitContext status)"
    and run: "contextCallback status ctx b (s\<lparr>pending := None\<rparr>) = Inr s'"
  shows "sessionPhase stored s'"
proof -
  let ?s0 = "s\<lparr>pending := None, trace := trace s @ [BeginSampling]\<rparr>"
  let ?m = "Publish (if status then ''interaction_data_send_complete''
                     else ''interaction_data_send_error'')"
  from ph p have tr: "trace s = [ModelPublishCurrent, WithContext]"
    by (simp add: sessionPhase_def)
  from run obtain s1 where b: "beginSampling ctx b ?s0 = Inr s1"
    and s': "s' = s1\<lparr>trace := trace s1 @ [?m]\<rparr>"
    by (auto simp: contextCallback_def split: sum.splits)
  from beginSampling_trace [OF b] tr have p1: "pending s1 = None"
    and t1: "trace s1 = [ModelPublishCurrent, WithContext, BeginSampling] \<or>
             (\<exists>d. trace s1 = [ModelPublishCurrent, WithContext, BeginSampling, ModelPush d])"
    by auto
  from t1 show ?thesis
  proof
    assume "trace s1 = [ModelPublishCurrent, WithContext, BeginSampling]"
    with p1 s' show ?thesis by (simp add: sessionPhase_def)
  next
    assume "\<exists>d. trace s1 = [ModelPublishCurrent, WithContext, BeginSampling, ModelPush d]"
    then obtain d where
      "trace s1 = [ModelPublishCurrent, WithContext, BeginSampling, ModelPush d]" ..
    with p1 s' show ?thesis by (simp add: sessionPhase_def)
  qed
qed

lemma sessionPhase_step:
  assumes "sessionPhase stored s" and "step i s = Inr s'"
  shows "sessionPhase stored s'"
proof (cases i)
  case (Message clock msg data)
  with assms show ?thesis by (blast intro: sessionPhase_kept controlKept_message)
next
  case (PublishDone status)
  show ?thesis
  proof (cases "pending s = Some AwaitPublish")
    case True
    with assms PublishDone show ?thesis
      by (auto simp: sessionPhase_def publishCallback_def modelPublishCurrentDone_def)
  next
    case False
    with assms PublishDone have "s' = s"
      by (auto split: option.splits callback.splits)
    with assms show ?thesis by simp
  qed
next
  case (ContextReady ctx b)
  show ?thesis
  proof (cases "\<exists>status. pending s = Some (AwaitContext status)")
    case True
    then obtain status where p: "pending s = Some (AwaitContext status)" ..
    with assms ContextReady
    have "contextCallback status ctx b (s\<lparr>pending := None\<rparr>) = Inr s'" by simp
    from sessionPhase_context [OF assms(1) p this] show ?thesis .
  next
    case False
    with assms ContextReady have "s' = s"
      by (auto split: option.splits callback.splits)
    with assms show ?thesis by simp
  qed
qed

lemma sessionPhase_run:
  "sessionPhase stored s \<Longrightarrow> run inputs s = Inr s' \<Longrightarrow> sessionPhase stored s'"
proof (induction inputs arbitrary: s)
  case Nil
  then show ?case by simp
next
  case (Cons i inputs)
  from Cons.prems(2) obtain s1 where st: "step i s = Inr s1" and r: "run inputs s1 = Inr s'"
    by (auto split: sum.splits)
  from sessionPhase_step [OF Cons.prems(1) st] Cons.IH r show ?case by blast
qed

lemma sessionPhase_sequenced:
  assumes "sessionPhase stored s"
  shows "sequenced (trace s)"
    and "BeginSampling \<in> set (trace s) \<or> (\<exists>d. ModelPush d \<in> set (trace s)) \<Longrightarrow>
         take 3 (trace s) = [ModelPublishCurrent, WithContext, BeginSampling]"
    and "BeginSampling \<notin> set (trace s) \<Longrightarrow>
         \<not> samplesBeingStored s \<and> (current s = stored \<or> current s = None)"
proof -
  show "sequenced (trace s)"
  proof (cases "pending s")
    case None
    with assms have t: "take 3 (trace s) = [ModelPublishCurrent, WithContext, BeginSampling]"
      and d: "decided (drop 3 (trace s))" by (simp_all add: sessionPhase_def)
    have "take 3 (trace s) @ drop 3 (trace s) = trace s" by (rule append_take_drop_id)
    with t have e: "[ModelPublishCurrent, WithContext, BeginSampling] @ drop 3 (trace s) = trace s"
      by simp
    show ?thesis by (subst e [symmetric]) (simp add: d)
  next
    case (Some c)
    with assms show ?thesis by (cases c) (simp_all add: sessionPhase_def)
  qed
  show "take 3 (trace s) = [ModelPublishCurrent, WithContext, BeginSampling]"
    if "BeginSampling \<in> set (trace s) \<or> (\<exists>d. ModelPush d \<in> set (trace s))"
    using assms that
    by (auto simp: sessionPhase_def split: option.splits callback.splits)
  show "\<not> samplesBeingStored s \<and> (current s = stored \<or> current s = None)"
    if "BeginSampling \<notin> set (trace s)"
  proof (cases "pending s")
    case None
    with assms have "take 3 (trace s) = [ModelPublishCurrent, WithContext, BeginSampling]"
      by (simp add: sessionPhase_def)
    then have "BeginSampling \<in> set (take 3 (trace s))" by simp
    then have "BeginSampling \<in> set (trace s)" by (rule in_set_takeD)
    with that show ?thesis by simp
  next
    case (Some c)
    with assms show ?thesis by (cases c) (simp_all add: sessionPhase_def)
  qed
qed


lemma start_fresh_session:
  assumes "\<not> opt_continuation opts"
  shows "\<exists>s0. start opts b (newModule stored) = Inr s0 \<and>
           trace s0 = [ModelPublishCurrent] \<and> pending s0 = Some AwaitPublish \<and>
           samplingEnabled s0 = opt_samplingEnabled opts \<and> current s0 = stored \<and>
           sessionPhase stored s0"
  using assms
  by (simp add: start_def Let_def newModule_def publishCurrent_def sessionPhase_def)

text \<open>
  C8. Every non-continuation \<^verbatim>\<open>start\<close>, whatever its options, calls
  \<^verbatim>\<open>model.publishCurrent\<close> first and makes no sampling decision itself. In every run of
  the session that follows, \<^verbatim>\<open>beginSampling\<close> and the push of a new durable record occur
  only after the publish callback has asked for the session context, that is, inside the
  completion callback of the publish; until \<^verbatim>\<open>beginSampling\<close> has run, the session
  buffers in memory and the store holds the previous record or, once the publish has
  ended, nothing. So the previous record is published whatever the new session decides.
\<close>

theorem C8_publish_before_sampling_decision:
  "\<not> opt_continuation opts \<longrightarrow>
     (\<exists>s0. start opts b (newModule stored) = Inr s0 \<and>
        trace s0 = [ModelPublishCurrent] \<and> pending s0 = Some AwaitPublish \<and>
        samplingEnabled s0 = opt_samplingEnabled opts \<and> current s0 = stored \<and>
        (\<forall>inputs s'. run inputs s0 = Inr s' \<longrightarrow>
           sequenced (trace s') \<and>
           (BeginSampling \<in> set (trace s') \<or> (\<exists>d. ModelPush d \<in> set (trace s')) \<longrightarrow>
              take 3 (trace s') = [ModelPublishCurrent, WithContext, BeginSampling]) \<and>
           (BeginSampling \<notin> set (trace s') \<longrightarrow>
              \<not> samplesBeingStored s' \<and> (current s' = stored \<or> current s' = None))))"
proof
  assume "\<not> opt_continuation opts"
  from start_fresh_session [OF this, of b stored] obtain s0 where
    st: "start opts b (newModule stored) = Inr s0"
    and f: "trace s0 = [ModelPublishCurrent]" "pending s0 = Some AwaitPublish"
      "samplingEnabled s0 = opt_samplingEnabled opts" "current s0 = stored"
    and ph: "sessionPhase stored s0"
    by blast
  have "\<forall>inputs s'. run inputs s0 = Inr s' \<longrightarrow>
           sequenced (trace s') \<and>
           (BeginSampling \<in> set (trace s') \<or> (\<exists>d. ModelPush d \<in> set (trace s')) \<longrightarrow>
              take 3 (trace s') = [ModelPublishCurrent, WithContext, BeginSampling]) \<and>
           (BeginSampling \<notin> set (trace s') \<longrightarrow>
              \<not> samplesBeingStored s' \<and> (current s' = stored \<or> current s' = None))"
  proof (intro allI impI)
    fix inputs s'
    assume "run inputs s0 = Inr s'"
    from sessionPhase_run [OF ph this] have p: "sessionPhase stored s'" .
    from sessionPhase_sequenced [OF p]
    show "sequenced (trace s') \<and>
           (BeginSampling \<in> set (trace s') \<or> (\<exists>d. ModelPush d \<in> set (trace s')) \<longrightarrow>
              take 3 (trace s') = [ModelPublishCurrent, WithContext, BeginSampling]) \<and>
           (BeginSampling \<notin> set (trace s') \<longrightarrow>
              \<not> samplesBeingStored s' \<and> (current s' = stored \<or> current s' = None))"
      by blast
  qed
  with st f show "\<exists>s0. start opts b (newModule stored) = Inr s0 \<and>
        trace s0 = [ModelPublishCurrent] \<and> pending s0 = Some AwaitPublish \<and>
        samplingEnabled s0 = opt_samplingEnabled opts \<and> current s0 = stored \<and>
        (\<forall>inputs s'. run inputs s0 = Inr s' \<longrightarrow>
           sequenced (trace s') \<and>
           (BeginSampling \<in> set (trace s') \<or> (\<exists>d. ModelPush d \<in> set (trace s')) \<longrightarrow>
              take 3 (trace s') = [ModelPublishCurrent, WithContext, BeginSampling]) \<and>
           (BeginSampling \<notin> set (trace s') \<longrightarrow>
              \<not> samplesBeingStored s' \<and> (current s' = stored \<or> current s' = None)))"
    by blast
qed

theorem C8_publish_before_sampling_decision_witness:
  "\<exists>s0 s'. start (page_options examplePage) (page_browser examplePage) (newModule None) = Inr s0 \<and>
      trace s0 = [ModelPublishCurrent] \<and>
      run (page_inputs examplePage) s0 = Inr s' \<and> sequenced (trace s')"
proof -
  from example_session obtain s' where b: "browse [examplePage] (newModule None) = Inr s'"
    by blast
  have nc: "\<not> opt_continuation (page_options examplePage)" by (simp add: examplePage_def)
  from C8_publish_before_sampling_decision
    [of "page_options examplePage" "page_browser examplePage" None, THEN mp, OF nc]
  obtain s0 where
    st: "start (page_options examplePage) (page_browser examplePage) (newModule None) = Inr s0"
    and tr: "trace s0 = [ModelPublishCurrent]"
    and a: "\<forall>inputs s'. run inputs s0 = Inr s' \<longrightarrow> sequenced (trace s')"
    by blast
  have c: "current (newModule None) = None" by (simp add: newModule_def)
  from b st c have r: "run (page_inputs examplePage) s0 = Inr s'"
    by (simp split: sum.splits)
  with a have "sequenced (trace s')" by blast
  with st tr r show ?thesis by blast
qed


subsection \<open>Continuation\<close>

lemma stream_disabled [simp]:
  "samplingEnabled s = Some False \<Longrightarrow> getCurrentEventStream s = None"
  by (simp add: getCurrentEventStream_def)

lemma addEvent_disabled:
  assumes off: "samplingEnabled s = Some False"
    and run: "addEvent clock msg data0 s = Inr (r, s1)"
  shows "r = None \<and> current s1 = current s \<and>
         initialEventStream s1 = initialEventStream s \<and>
         initialKPIs s1 = initialKPIs s \<and>
         samplingEnabled s1 = Some False \<and> getCurrentEventStream s1 = None"
proof -
  let ?data = "orEmpty data0"
  from run obtain s0 where
    s0: "(if msg = ''start_time'' then
            (case ?data of Time t \<Rightarrow> Inr (updateStartTime t s) | _ \<Rightarrow> Inl NaNTime)
          else Inr s) = Inr s0"
    by (auto simp: addEvent_def Let_def split: sum.splits)
  have u: "\<And>t. updateStartTime t s = s\<lparr>startTime := t\<rparr>"
    using off by (simp add: updateStartTime_def)
  from s0 have "s0 = s \<or> (\<exists>t. s0 = s\<lparr>startTime := t\<rparr>)"
    by (cases ?data) (auto simp: u split: if_splits)
  then have k: "samplingEnabled s0 = Some False \<and> current s0 = current s \<and>
                initialEventStream s0 = initialEventStream s \<and>
                initialKPIs s0 = initialKPIs s"
    using off by auto
  with run s0 have "r = None \<and> s1 = s0" by (simp add: addEvent_def Let_def)
  with k show ?thesis by simp
qed

lemma resumed_step:
  assumes "pending s = None \<and> trace s = [] \<and> samplingEnabled s = Some True \<and>
           samplesBeingStored s"
    and "step i s = Inr s'"
  shows "pending s' = None \<and> trace s' = [] \<and> samplingEnabled s' = Some True \<and>
         samplesBeingStored s'"
proof (cases i)
  case (Message clock msg data)
  with assms(2) have "controlKept s s'" by (simp only: controlKept_message)
  with assms(1) show ?thesis by (simp add: controlKept_def)
next
  case (PublishDone status)
  with assms show ?thesis by simp
next
  case (ContextReady ctx b)
  with assms show ?thesis by simp
qed

lemma resumed_run:
  "pending s = None \<and> trace s = [] \<and> samplingEnabled s = Some True \<and> samplesBeingStored s \<Longrightarrow>
   run inputs s = Inr s' \<Longrightarrow>
   pending s' = None \<and> trace s' = [] \<and> samplingEnabled s' = Some True \<and> samplesBeingStored s'"
proof (induction inputs arbitrary: s)
  case Nil
  then show ?case by simp
next
  case (Cons i inputs)
  from Cons.prems(2) obtain s1 where st: "step i s = Inr s1" and r: "run inputs s1 = Inr s'"
    by (auto split: sum.splits)
  from resumed_step [OF Cons.prems(1) st] Cons.IH r show ?case by blast
qed

lemma idle_run:
  "\<not> subscribed s \<Longrightarrow> pending s = None \<Longrightarrow> run inputs s = Inr s"
proof (induction inputs)
  case Nil
  then show ?case by simp
next
  case (Cons i inputs)
  then have "step i s = Inr s" by (cases i) simp_all
  with Cons show ?case by simp
qed

text \<open>
  C9. On a continuation start of a freshly loaded page: when the store holds a record
  whose local timestamp parses to \<open>t\<close>, the module resumes with sampling enabled, storing
  durably, start time \<open>t\<close>, the record still current; nothing is published and in no run
  that follows is the decision engine called. When the store holds no record, sampling is
  disabled, the module is not subscribed, every run leaves the state as it is, and a
  direct call of \<^verbatim>\<open>addEvent\<close> records nothing.
\<close>

theorem C9_continuation_start:
  "opt_continuation opts \<longrightarrow>
     (stored = Some d \<and> dateParse b (local_timestamp d) = Some t \<longrightarrow>
        (\<exists>s0. start opts b (newModule stored) = Inr s0 \<and>
           samplingEnabled s0 = Some True \<and> samplesBeingStored s0 \<and> startTime s0 = t \<and>
           current s0 = Some d \<and> trace s0 = [] \<and> pending s0 = None \<and>
           getCurrentKPIs s0 = Some d \<and>
           (\<forall>inputs s'. run inputs s0 = Inr s' \<longrightarrow>
              trace s' = [] \<and> samplingEnabled s' = Some True \<and> samplesBeingStored s'))) \<and>
     (stored = None \<longrightarrow>
        (\<exists>s0. start opts b (newModule stored) = Inr s0 \<and>
           samplingEnabled s0 = Some False \<and> current s0 = None \<and>
           getCurrentEventStream s0 = None \<and> getCurrentKPIs s0 = None \<and>
           (\<forall>inputs. run inputs s0 = Inr s0) \<and>
           (\<forall>clock msg data r s1. addEvent clock msg data s0 = Inr (r, s1) \<longrightarrow>
              r = None \<and> current s1 = None \<and> initialEventStream s1 = None \<and>
              samplingEnabled s1 = Some False \<and> getCurrentEventStream s1 = None)))"
proof (intro impI conjI)
  assume c: "opt_continuation opts"
    and h: "stored = Some d \<and> dateParse b (local_timestamp d) = Some t"
  let ?s0 = "(newModule stored)\<lparr>mediatorToKPINameTable := MediatorToKPINameTable,
      samplingEnabled := opt_samplingEnabled opts, startTime := t,
      samplingEnabled := Some True, samplesBeingStored := True, subscribed := True\<rparr>"
  from c h have st: "start opts b (newModule stored) = Inr ?s0"
    by (simp add: start_def Let_def modelGetCurrent_def newModule_def)
  from h have f: "samplingEnabled ?s0 = Some True" "samplesBeingStored ?s0" "startTime ?s0 = t"
    "current ?s0 = Some d" "trace ?s0 = []" "pending ?s0 = None" "getCurrentKPIs ?s0 = Some d"
    by (simp_all add: newModule_def getCurrentKPIs_def modelGetCurrent_def)
  have "\<forall>inputs s'. run inputs ?s0 = Inr s' \<longrightarrow>
          trace s' = [] \<and> samplingEnabled s' = Some True \<and> samplesBeingStored s'"
  proof (intro allI impI)
    fix inputs s'
    assume "run inputs ?s0 = Inr s'"
    with resumed_run [of ?s0 inputs s'] f
    show "trace s' = [] \<and> samplingEnabled s' = Some True \<and> samplesBeingStored s'"
      by blast
  qed
  with st f show "\<exists>s0. start opts b (newModule stored) = Inr s0 \<and>
           samplingEnabled s0 = Some True \<and> samplesBeingStored s0 \<and> startTime s0 = t \<and>
           current s0 = Some d \<and> trace s0 = [] \<and> pending s0 = None \<and>
           getCurrentKPIs s0 = Some d \<and>
           (\<forall>inputs s'. run inputs s0 = Inr s' \<longrightarrow>
              trace s' = [] \<and> samplingEnabled s' = Some True \<and> samplesBeingStored s')"
    by blast
next
  assume c: "opt_continuation opts" and h: "stored = None"
  let ?s0 = "(newModule stored)\<lparr>mediatorToKPINameTable := MediatorToKPINameTable,
      samplingEnabled := opt_samplingEnabled opts, samplingEnabled := Some False\<rparr>"
  from c h have st: "start opts b (newModule stored) = Inr ?s0"
    by (simp add: start_def Let_def modelGetCurrent_def newModule_def)
  from h have f: "samplingEnabled ?s0 = Some False" "current ?s0 = None"
    "initialEventStream ?s0 = None"
    "getCurrentEventStream ?s0 = None" "getCurrentKPIs ?s0 = None"
    "\<not> subscribed ?s0" "pending ?s0 = None"
    by (simp_all add: newModule_def getCurrentKPIs_def)
  from f have idle: "\<forall>inputs. run inputs ?s0 = Inr ?s0"
    by (blast intro: idle_run)
  have rec: "\<forall>clock msg data r s1. addEvent clock msg data ?s0 = Inr (r, s1) \<longrightarrow>
              r = None \<and> current s1 = None \<and> initialEventStream s1 = None \<and>
              samplingEnabled s1 = Some False \<and> getCurrentEventStream s1 = None"
  proof (intro allI impI)
    fix clock msg data r s1
    assume "addEvent clock msg data ?s0 = Inr (r, s1)"
    from addEvent_disabled [OF f(1) this] f(2,3)
    show "r = None \<and> current s1 = None \<and> initialEventStream s1 = None \<and>
              samplingEnabled s1 = Some False \<and> getCurrentEventStream s1 = None"
      by simp
  qed
  from st f(1,2,4,5) idle rec
  show "\<exists>s0. start opts b (newModule stored) = Inr s0 \<and>
           samplingEnabled s0 = Some False \<and> current s0 = None \<and>
           getCurrentEventStream s0 = None \<and> getCurrentKPIs s0 = None \<and>
           (\<forall>inputs. run inputs s0 = Inr s0) \<and>
           (\<forall>clock msg data r s1. addEvent clock msg data s0 = Inr (r, s1) \<longrightarrow>
              r = None \<and> current s1 = None \<and> initialEventStream s1 = None \<and>
              samplingEnabled s1 = Some False \<and> getCurrentEventStream s1 = None)"
    by blast
qed


theorem C9_continuation_start_witness:
  "(\<exists>s0. start \<lparr>opt_samplingEnabled = None, opt_continuation = True\<rparr> exampleBrowser
            (newModule (Some (emptyKPIs\<lparr>local_timestamp :=
               Some ''Thu Jan 01 1970 00:00:01 GMT+0000''\<rparr>))) = Inr s0 \<and>
         samplingEnabled s0 = Some True \<and> samplesBeingStored s0 \<and> startTime s0 = 1000 \<and>
         trace s0 = []) \<and>
   (\<exists>s0. start \<lparr>opt_samplingEnabled = None, opt_continuation = True\<rparr> exampleBrowser
            (newModule None) = Inr s0 \<and>
         samplingEnabled s0 = Some False \<and>
         run (page_inputs examplePage) s0 = Inr s0)"
proof -
  let ?o = "\<lparr>opt_samplingEnabled = None, opt_continuation = True\<rparr>"
  let ?d = "emptyKPIs\<lparr>local_timestamp := Some ''Thu Jan 01 1970 00:00:01 GMT+0000''\<rparr>"
  have c: "opt_continuation ?o" by simp
  have h: "Some ?d = Some ?d \<and> dateParse exampleBrowser (local_timestamp ?d) = Some 1000"
    by (simp add: exampleBrowser_def)
  from C9_continuation_start [of ?o "Some ?d" ?d exampleBrowser 1000, THEN mp, OF c,
      THEN conjunct1, THEN mp, OF h]
  have 1: "\<exists>s0. start ?o exampleBrowser (newModule (Some ?d)) = Inr s0 \<and>
         samplingEnabled s0 = Some True \<and> samplesBeingStored s0 \<and> startTime s0 = 1000 \<and>
         trace s0 = []"
    by blast
  from C9_continuation_start [of ?o None ?d exampleBrowser 1000, THEN mp, OF c,
      THEN conjunct2, THEN mp, OF refl]
  have 2: "\<exists>s0. start ?o exampleBrowser (newModule None) = Inr s0 \<and>
         samplingEnabled s0 = Some False \<and>
         run (page_inputs examplePage) s0 = Inr s0"
    by blast
  from 1 2 show ?thesis by (rule conjI)
qed

end
